theory Spec2Isabelle
  imports Main "HOL-Library.AList"
begin

section \<open>Strings\<close>

text \<open>
  Go strings are byte sequences; they are modelled as \<open>string\<close> (a list of 8-bit
  characters), one \<open>char\<close> per byte.
\<close>

definition lower_byte :: "char \<Rightarrow> char" where
  "lower_byte c =
     (case map_of (zip ''ABCDEFGHIJKLMNOPQRSTUVWXYZ'' ''abcdefghijklmnopqrstuvwxyz'') c of
        Some d \<Rightarrow> d
      | None \<Rightarrow> c)"

text \<open>
  \<open>strings.ToLower\<close>. ASCII letters \<open>A\<close>..\<open>Z\<close> are lowered bytewise. Two runes
  outside ASCII have an ASCII lower case in Go's tables: U+0130 (bytes C4 B0) lowers to
  \<open>i\<close> and U+212A (bytes E2 84 AA) lowers to \<open>k\<close>. Every other byte from 0x80 on is
  kept as it is: Go maps such a rune to a rune that is again outside ASCII, so a string
  holding one never equals any of the ASCII case labels of \<open>levelForAbbr\<close>, here as in
  Go.
\<close>

fun ToLower :: "string \<Rightarrow> string" where
  "ToLower (c1 # c2 # c3 # cs) =
     (if c1 = CHR 0xE2 \<and> c2 = CHR 0x84 \<and> c3 = CHR 0xAA
      then CHR ''k'' # ToLower cs
      else if c1 = CHR 0xC4 \<and> c2 = CHR 0xB0
      then CHR ''i'' # ToLower (c3 # cs)
      else lower_byte c1 # ToLower (c2 # c3 # cs))"
| "ToLower [c1, c2] =
     (if c1 = CHR 0xC4 \<and> c2 = CHR 0xB0
      then [CHR ''i'']
      else [lower_byte c1, lower_byte c2])"
| "ToLower [c1] = [lower_byte c1]"
| "ToLower [] = []"

section \<open>Levels\<close>

text \<open>
  \<open>Level\<close> and its constants are declared in a file of the repository that is not part
  of the sources at hand. \<open>factory.go\<close> uses seven of them by name; the enumeration
  keeps these names.
\<close>

datatype Level =
  AllLevel | DebugLevel | InfoLevel | WarnLevel | ErrorLevel | PanicLevel | OffLevel

datatype Severity = SevOff | SevError | SevInfo | SevDebug | SevAll

text \<open>
  Modelled from the spec: the severity that each \<open>Level\<close> constant stands for (the
  declaration of the constants is missing). The specification's enumeration is
  OFF, ERROR, INFO, DEBUG, ALL, with WARN a deprecated alias of INFO and the legacy
  panic/fatal level counted as the ERROR severity.
\<close>

fun severity :: "Level \<Rightarrow> Severity" where
  "severity OffLevel = SevOff"
| "severity ErrorLevel = SevError"
| "severity PanicLevel = SevError"
| "severity WarnLevel = SevInfo"
| "severity InfoLevel = SevInfo"
| "severity DebugLevel = SevDebug"
| "severity AllLevel = SevAll"

text \<open>
  Errors are values carrying their message; \<open>None\<close> is Go's \<open>nil\<close> error.
\<close>

type_synonym error = "string option"

definition levelForAbbr :: "string \<Rightarrow> Level \<times> error" where
  "levelForAbbr abbr =
     (let a = ToLower abbr in
      if a = [] then (AllLevel, None)
      else if a = ''off'' then (OffLevel, None)
      else if a = ''trc'' \<or> a = ''trace'' then
        (DebugLevel, Some ''TRC is deprecated, mapped to DEBUG'')
      else if a = ''dbg'' \<or> a = ''debug'' then (DebugLevel, None)
      else if a = ''inf'' \<or> a = ''info'' then (InfoLevel, None)
      else if a = ''wrn'' \<or> a = ''warn'' then
        (WarnLevel, Some ''WRN is deprecated, use INF'')
      else if a = ''err'' \<or> a = ''error'' then (ErrorLevel, None)
      else if a = ''pan'' \<or> a = ''panic'' then
        (PanicLevel, Some ''PAN is deprecated, use ERR'')
      else if a = ''ftl'' \<or> a = ''fatal'' then
        (PanicLevel, Some ''FTL is deprecated, use ERR, mapped to PANIC'')
      else (WarnLevel, Some (abbr @ '' not recognized level, defaulting to warn'')))"

definition recognized_abbrs :: "string list" where
  "recognized_abbrs =
     ['''', ''off'', ''trc'', ''trace'', ''dbg'', ''debug'', ''inf'', ''info'',
      ''wrn'', ''warn'', ''err'', ''error'', ''pan'', ''panic'', ''ftl'', ''fatal'']"


section \<open>Collaborators of the factory\<close>

text \<open>
  Output sinks (\<open>io.Writer\<close> values) and encoders are collaborators from outside the
  file; only their identity matters here. A \<open>nil\<close> interface value is \<open>None\<close>.
\<close>

datatype Writer = Stdout | Sink nat

datatype CallerEncoder = ShortCallerEncoder | OtherCallerEncoder nat

datatype LevelEncoder = AbbrLevelEncoder | OtherLevelEncoder nat

text \<open>
  \<open>EncoderConfig\<close> is declared elsewhere in the repository. \<open>Configure\<close> reads and
  sets two of its fields; the others are kept as one opaque value.
\<close>

record EncoderConfig =
  EncodeCaller :: "CallerEncoder option"
  EncodeLevel :: "LevelEncoder option"
  otherFields :: nat

text \<open>
  The encoder constructors called by \<open>factory.go\<close>, each applied to the configuration
  it was built from; \<open>ZapConsoleEncoder\<close> is \<open>zapcore.NewConsoleEncoder\<close>, and
  \<open>OtherEncoder\<close> stands for any encoder a caller hands to \<open>SetEncoder\<close>.
\<close>

datatype Encoder =
  JSONEncoder EncoderConfig
| LTSVEncoder EncoderConfig
| ConsoleEncoder EncoderConfig
| ColorizedConsoleEncoder EncoderConfig
| ZapConsoleEncoder EncoderConfig
| OtherEncoder nat

text \<open>
  \<open>NewEncoderConfig\<close> and \<open>NewDevelopmentEncoderConfig\<close> are functions of the
  repository whose code is not at hand. What they return is a parameter of every
  function that reaches them.
\<close>

record Pkg =
  NewEncoderConfig :: EncoderConfig
  NewDevelopmentEncoderConfig :: EncoderConfig

section \<open>The factory\<close>

text \<open>
  A \<open>zapcore.LevelEnabler\<close> held by the factory is either a plain level or the
  factory's \<open>defaultLevel\<close>. The latter is a \<open>zap.AtomicLevel\<close>, a pointer to one
  shared cell: whoever holds it reads the default level of the moment.
\<close>

datatype Enabler = Fixed Level | DefaultAtomic

text \<open>The concrete logger that \<open>newLogger\<close> builds, by what it was built from.\<close>

record Instance =
  core_enc :: Encoder
  core_out :: Writer
  core_lvl :: Enabler
  with_caller :: bool
  logger_name :: string

record loggerInfo =
  levelEnabler :: "Enabler option"
  atomicLogger :: "Instance option"

type_synonym addr = nat

text \<open>
  The map \<open>loggers\<close> holds pointers to \<open>loggerInfo\<close> cells, and facades keep pointers
  into the same cells. The cells live in a store, \<open>infos\<close>, addressed by numbers;
  \<open>next_info\<close> is the first address not yet allocated. The map itself is an
  association list; Go leaves the order of \<open>range\<close> over a map open, here it is the
  order of the list. The mutex is not modelled: calls run one after the other.
\<close>

record Factory =
  defaultLevel :: Level
  encoder :: "Encoder option"
  out :: "Writer option"
  loggers :: "(string \<times> addr) list"
  addCaller :: bool
  infos :: "addr \<Rightarrow> loggerInfo"
  next_info :: addr

definition SetDefaultLevel :: "Level \<Rightarrow> Factory \<Rightarrow> Factory" where
  "SetDefaultLevel l r = r\<lparr>defaultLevel := l\<rparr>"

text \<open>
  \<open>zap.NewAtomicLevel\<close> starts at zap's info level, which \<open>NewFactory\<close> overwrites at
  once. No cell is allocated yet; an unallocated cell reads as the zero \<open>loggerInfo\<close>.
\<close>

definition NewFactory :: Factory where
  "NewFactory =
     SetDefaultLevel OffLevel
       \<lparr>defaultLevel = InfoLevel, encoder = None, out = None, loggers = [],
        addCaller = False,
        infos = (\<lambda>_. \<lparr>levelEnabler = None, atomicLogger = None\<rparr>),
        next_info = 0\<rparr>"

definition getEncoder :: "Pkg \<Rightarrow> Factory \<Rightarrow> Encoder" where
  "getEncoder pkg r =
     (case encoder r of None \<Rightarrow> LTSVEncoder (NewEncoderConfig pkg) | Some e \<Rightarrow> e)"

definition getOut :: "Factory \<Rightarrow> Writer" where
  "getOut r = (case out r of None \<Rightarrow> Stdout | Some w \<Rightarrow> w)"

definition newLogger :: "Pkg \<Rightarrow> Factory \<Rightarrow> string \<Rightarrow> loggerInfo \<Rightarrow> Instance" where
  "newLogger pkg r name info =
     \<lparr>core_enc = getEncoder pkg r,
      core_out = getOut r,
      core_lvl = (case levelEnabler info of Some l \<Rightarrow> l | None \<Rightarrow> DefaultAtomic),
      with_caller = addCaller r,
      logger_name = name\<rparr>"

text \<open>\<open>info.atomicLogger.set(x)\<close> for the cell at address \<open>a\<close>.\<close>

definition set_atomic :: "addr \<Rightarrow> Instance \<Rightarrow> Factory \<Rightarrow> Factory" where
  "set_atomic a x r = r\<lparr>infos := (infos r)(a := (infos r a)\<lparr>atomicLogger := Some x\<rparr>)\<rparr>"

text \<open>\<open>info.levelEnabler = e\<close> for the cell at address \<open>a\<close>.\<close>

definition set_enabler :: "addr \<Rightarrow> Enabler \<Rightarrow> Factory \<Rightarrow> Factory" where
  "set_enabler a e r = r\<lparr>infos := (infos r)(a := (infos r a)\<lparr>levelEnabler := Some e\<rparr>)\<rparr>"

text \<open>The body of the loop of \<open>refreshLoggers\<close>, for one entry of the map.\<close>

definition refresh_entry :: "Pkg \<Rightarrow> string \<times> addr \<Rightarrow> Factory \<Rightarrow> Factory" where
  "refresh_entry pkg na r =
     (case na of (name, a) \<Rightarrow> set_atomic a (newLogger pkg r name (infos r a)) r)"

definition refreshLoggers :: "Pkg \<Rightarrow> Factory \<Rightarrow> Factory" where
  "refreshLoggers pkg r = fold (refresh_entry pkg) (loggers r) r"

definition getLoggerInfo :: "Pkg \<Rightarrow> string \<Rightarrow> Factory \<Rightarrow> addr \<times> Factory" where
  "getLoggerInfo pkg name r =
     (case map_of (loggers r) name of
        Some a \<Rightarrow> (a, r)
      | None \<Rightarrow>
          let a = next_info r;
              info = \<lparr>levelEnabler = None, atomicLogger = None\<rparr>;
              r1 = r\<lparr>infos := (infos r)(a := info), next_info := Suc a\<rparr>;
              r2 = r1\<lparr>loggers := AList.update name a (loggers r1)\<rparr>
          in (a, set_atomic a (newLogger pkg r2 name info) r2))"

definition setLevel :: "Pkg \<Rightarrow> string \<Rightarrow> Level \<Rightarrow> Factory \<Rightarrow> Factory" where
  "setLevel pkg name l r =
     (let (a, r') = getLoggerInfo pkg name r in set_enabler a (Fixed l) r')"

definition SetLevel :: "Pkg \<Rightarrow> string \<Rightarrow> Level \<Rightarrow> Factory \<Rightarrow> Factory" where
  "SetLevel pkg name l r = refreshLoggers pkg (setLevel pkg name l r)"

definition SetEncoder :: "Pkg \<Rightarrow> Encoder option \<Rightarrow> Factory \<Rightarrow> Factory" where
  "SetEncoder pkg e r = refreshLoggers pkg (r\<lparr>encoder := e\<rparr>)"

definition SetAddCaller :: "Pkg \<Rightarrow> bool \<Rightarrow> Factory \<Rightarrow> Factory" where
  "SetAddCaller pkg b r = refreshLoggers pkg (r\<lparr>addCaller := b\<rparr>)"

text \<open>
  \<open>SetOut\<close> returns a closure that calls \<open>SetOut\<close> with the prior writer and drops
  what that call returns. \<open>setOut\<close> is the change of state of one call; the closure is
  \<open>setOut\<close> at the prior writer.
\<close>

definition setOut :: "Pkg \<Rightarrow> Writer option \<Rightarrow> Factory \<Rightarrow> Factory" where
  "setOut pkg w r = refreshLoggers pkg (r\<lparr>out := w\<rparr>)"

definition SetOut :: "Pkg \<Rightarrow> Writer option \<Rightarrow> Factory \<Rightarrow> (Factory \<Rightarrow> Factory) \<times> Factory" where
  "SetOut pkg w r = (let prior = out r in (setOut pkg prior, setOut pkg w r))"


section \<open>The level string\<close>

text \<open>
  \<open>strings.Split\<close> at a separator of one byte, \<open>strings.Join\<close> and
  \<open>strings.HasPrefix\<close>. \<open>Split\<close> never returns the empty list.
\<close>

fun Split :: "string \<Rightarrow> char \<Rightarrow> string list" where
  "Split [] sep = [[]]"
| "Split (c # cs) sep =
     (if c = sep then [] # Split cs sep
      else (case Split cs sep of
              p # ps \<Rightarrow> (c # p) # ps
            | [] \<Rightarrow> [[c]]))"

fun Join :: "string list \<Rightarrow> string \<Rightarrow> string" where
  "Join [] sep = []"
| "Join [x] sep = x"
| "Join (x # y # ys) sep = x @ sep @ Join (y # ys) sep"

definition HasPrefix :: "string \<Rightarrow> string \<Rightarrow> bool" where
  "HasPrefix s p = (take (length p) s = p)"

text \<open>
  The values of the \<open>map[string]interface{}\<close> that \<open>parseConfigString\<close> builds are
  booleans and strings. Go maps are association lists with one pair per key:
  \<open>m[k] = v\<close> is \<open>AList.update k v m\<close>, \<open>delete(m, k)\<close> is \<open>AList.delete k m\<close>, and a
  \<open>nil\<close> map reads as the empty one.
\<close>

datatype ConfigValue = BoolValue bool | StringValue string

definition parse_setting ::
  "string \<Rightarrow> (string \<times> ConfigValue) list \<Rightarrow> (string \<times> ConfigValue) list" where
  "parse_setting setting m =
     (case Split setting CHR ''='' of
        [name] \<Rightarrow>
          if HasPrefix name ''-'' then AList.update (drop 1 name) (BoolValue False) m
          else AList.update name (BoolValue True) m
      | [k, v] \<Rightarrow> AList.update k (StringValue v) m
      | _ \<Rightarrow> m)"

definition parseConfigString :: "string \<Rightarrow> (string \<times> ConfigValue) list" where
  "parseConfigString s =
     (if s = [] then [] else fold parse_setting (Split s CHR '','') [])"

text \<open>The body of the first loop of \<open>LevelsString\<close>, over one entry of the parsed map.\<close>

definition level_of_entry ::
  "string \<times> ConfigValue \<Rightarrow> (string \<times> Level) list \<times> string list
     \<Rightarrow> (string \<times> Level) list \<times> string list" where
  "level_of_entry kv acc =
     (case kv of (key, val) \<Rightarrow>
      case acc of (levelMap, errMsgs) \<Rightarrow>
        (case val of
           BoolValue t \<Rightarrow>
             (AList.update key (if t then AllLevel else OffLevel) levelMap, errMsgs)
         | StringValue t \<Rightarrow>
             (case levelForAbbr t of (l, err) \<Rightarrow>
                (AList.update key l levelMap,
                 (case err of None \<Rightarrow> errMsgs | Some e \<Rightarrow> errMsgs @ [e])))))"

text \<open>The second loop: an existing logger that the level map does not name is reset.\<close>

definition reset_unnamed :: "(string \<times> Level) list \<Rightarrow> string \<times> addr \<Rightarrow> Factory \<Rightarrow> Factory" where
  "reset_unnamed levelMap na r =
     (case na of (name, a) \<Rightarrow>
        if map_of levelMap name = None then set_enabler a DefaultAtomic r else r)"

text \<open>The third loop: every entry of the level map is set.\<close>

definition set_entry_level :: "Pkg \<Rightarrow> string \<times> Level \<Rightarrow> Factory \<Rightarrow> Factory" where
  "set_entry_level pkg nl r = (case nl of (name, level) \<Rightarrow> setLevel pkg name level r)"

definition LevelsString :: "Pkg \<Rightarrow> string \<Rightarrow> Factory \<Rightarrow> error \<times> Factory" where
  "LevelsString pkg s r =
     (let m = parseConfigString s;
          (levelMap0, errMsgs) = fold level_of_entry m ([], []);
          (r1, levelMap) =
            (case map_of levelMap0 ''*'' of
               Some defaultLevel' \<Rightarrow>
                 (SetDefaultLevel defaultLevel' r, AList.delete ''*'' levelMap0)
             | None \<Rightarrow> (r, levelMap0));
          r2 = fold (reset_unnamed levelMap) (loggers r1) r1;
          r3 = fold (set_entry_level pkg) levelMap r2
      in if length errMsgs > 0
         then (Some (''errors parsing config string: '' @ Join errMsgs '', ''), r3)
         else (None, refreshLoggers pkg r3))"

section \<open>Configure\<close>

text \<open>
  The fields of \<open>Config\<close> that \<open>Configure\<close> reads. \<open>EncoderConfig\<close> and \<open>AddCaller\<close>
  are pointers, \<open>None\<close> when \<open>nil\<close>. \<open>Configure\<close> fills the two encoder fields
  through the pointer, so a configuration handed in by the caller is changed in place;
  that change is outside the factory and is not followed here.
\<close>

record Config =
  DefaultLevel :: Level
  EncoderConfig :: "EncoderConfig option"
  Encoding :: string
  Development :: bool
  AddCaller :: "bool option"
  Levels :: string

definition chooseEncoderConfig :: "Pkg \<Rightarrow> Config \<Rightarrow> EncoderConfig" where
  "chooseEncoderConfig pkg cfg =
     (let encCfg =
            (case EncoderConfig cfg of
               Some c \<Rightarrow> c
             | None \<Rightarrow>
                 if Development cfg then NewDevelopmentEncoderConfig pkg
                 else NewEncoderConfig pkg);
          encCfg1 =
            (if EncodeCaller encCfg = None
             then encCfg\<lparr>EncodeCaller := Some ShortCallerEncoder\<rparr> else encCfg);
          encCfg2 =
            (if EncodeLevel encCfg1 = None
             then encCfg1\<lparr>EncodeLevel := Some AbbrLevelEncoder\<rparr> else encCfg1)
      in encCfg2)"

text \<open>The \<open>switch cfg.Encoding\<close>; \<open>None\<close> is its \<open>default\<close> branch.\<close>

definition chooseEncoder :: "Config \<Rightarrow> EncoderConfig \<Rightarrow> Encoder option" where
  "chooseEncoder cfg encCfg =
     (if Encoding cfg = ''json'' then Some (JSONEncoder encCfg)
      else if Encoding cfg = ''ltsv'' then Some (LTSVEncoder encCfg)
      else if Encoding cfg = ''term'' then Some (ConsoleEncoder encCfg)
      else if Encoding cfg = ''term-color'' then Some (ColorizedConsoleEncoder encCfg)
      else if Encoding cfg = ''console'' then Some (ZapConsoleEncoder encCfg)
      else if Encoding cfg = [] then
        (if Development cfg then Some (ColorizedConsoleEncoder encCfg)
         else Some (LTSVEncoder encCfg))
      else None)"

definition Configure :: "Pkg \<Rightarrow> Config \<Rightarrow> Factory \<Rightarrow> error \<times> Factory" where
  "Configure pkg cfg r =
     (let r1 = SetDefaultLevel (DefaultLevel cfg) r;
          encCfg = chooseEncoderConfig pkg cfg
      in case chooseEncoder cfg encCfg of
           None \<Rightarrow>
             (Some (Encoding cfg @
                '' is not a valid encoding, must be one of: json, ltsv, term, or term-color''),
              r1)
         | Some encoder' \<Rightarrow>
             let addCaller' =
                   (case AddCaller cfg of Some b \<Rightarrow> b | None \<Rightarrow> Development cfg);
                 r2 = snd (LevelsString pkg (Levels cfg) r1);
                 r3 = r2\<lparr>encoder := Some encoder', addCaller := addCaller'\<rparr>
             in (None, refreshLoggers pkg r3))"


section \<open>Facades\<close>

text \<open>
  A logging argument is an \<open>interface{}\<close> value: a \<open>zapcore.Field\<close>, with its key, or
  anything else. \<open>zap.Any(key, v)\<close> is \<open>ZapField key v\<close>.
\<close>

datatype Val = NilVal | SomeVal nat

datatype Arg = Plain Val | ZapField string Val

text \<open>
  The context of a facade is a Go slice: a pointer to a backing array, a length and a
  capacity; \<open>NilSlice\<close> is the \<open>nil\<close> slice. The backing arrays live in a store of their
  own. \<open>append\<close> writes into the backing array of its first argument when the capacity
  allows it, and allocates a new array otherwise. How much room a new array gets is up
  to the Go runtime: \<open>grow\<close> gives that capacity from the old capacity and the length
  needed, and is never taken below the length needed.
\<close>

datatype Slice = NilSlice | Slice addr nat nat

record Mem =
  arrays :: "addr \<Rightarrow> Arg list"
  next_arr :: addr

fun len_s :: "Slice \<Rightarrow> nat" where
  "len_s NilSlice = 0"
| "len_s (Slice a n c) = n"

fun cap_s :: "Slice \<Rightarrow> nat" where
  "cap_s NilSlice = 0"
| "cap_s (Slice a n c) = c"

fun elems :: "Mem \<Rightarrow> Slice \<Rightarrow> Arg list" where
  "elems m NilSlice = []"
| "elems m (Slice a n c) = take n (arrays m a)"

definition append_slice ::
  "(nat \<Rightarrow> nat \<Rightarrow> nat) \<Rightarrow> Slice \<Rightarrow> Arg list \<Rightarrow> Mem \<Rightarrow> Slice \<times> Mem" where
  "append_slice grow s xs m =
     (let need = len_s s + length xs in
      if need \<le> cap_s s then
        (case s of
           NilSlice \<Rightarrow> (NilSlice, m)
         | Slice a n c \<Rightarrow>
             (Slice a need c,
              m\<lparr>arrays := (arrays m)
                   (a := take n (arrays m a) @ xs @ drop need (arrays m a))\<rparr>))
      else
        (let c' = max need (grow (cap_s s) need);
             a' = next_arr m
         in (Slice a' need c',
             m\<lparr>arrays := (arrays m)
                  (a' := elems m s @ xs @ replicate (c' - need) (Plain NilVal)),
               next_arr := Suc a'\<rparr>)))"

text \<open>
  The facade embeds a pointer to the \<open>atomicLogger\<close> of its registry entry, which is the
  address of the entry's cell.
\<close>

record logger =
  atomicLogger_ptr :: addr
  context_s :: Slice

text \<open>
  \<open>get\<close> loads the instance published in the handle; the type assertion of the source
  panics on a handle that was never set, which is \<open>None\<close>.
\<close>

definition get :: "Factory \<Rightarrow> logger \<Rightarrow> Instance option" where
  "get r l = atomicLogger (infos r (atomicLogger_ptr l))"

definition NewDeprecatedLogger :: "Pkg \<Rightarrow> string \<Rightarrow> Factory \<Rightarrow> logger \<times> Factory" where
  "NewDeprecatedLogger pkg name r =
     (let (a, r') = getLoggerInfo pkg name r
      in (\<lparr>atomicLogger_ptr = a, context_s = NilSlice\<rparr>, r'))"

definition NewLogger :: "Pkg \<Rightarrow> string \<Rightarrow> Factory \<Rightarrow> logger \<times> Factory" where
  "NewLogger pkg name r = NewDeprecatedLogger pkg name r"

definition normalizeArgs :: "Arg list \<Rightarrow> Arg list" where
  "normalizeArgs args =
     (case args of
        [x] \<Rightarrow> (case x of ZapField k v \<Rightarrow> [x] | Plain v \<Rightarrow> [ZapField [] v])
      | _ \<Rightarrow> args)"

text \<open>
  The six logging methods differ in the method of the zap logger they call.
  \<open>Emitted\<close> is that call: the instance it goes to, the zap method, the message and
  the key-value arguments.
\<close>

datatype ZapMethod = Debugw | Infow | Warnw | Errorw | Panicw

record Emitted =
  to_instance :: Instance
  zap_method :: ZapMethod
  message :: string
  key_values :: "Arg list"

definition logw ::
  "(nat \<Rightarrow> nat \<Rightarrow> nat) \<Rightarrow> ZapMethod \<Rightarrow> string \<Rightarrow> Arg list \<Rightarrow> logger \<Rightarrow> Factory \<Rightarrow> Mem
     \<Rightarrow> (Emitted \<times> Mem) option" where
  "logw grow zm msg args l r m =
     (let args' = normalizeArgs args in
      if len_s (context_s l) > 0 then
        (case get r l of
           None \<Rightarrow> None
         | Some i \<Rightarrow>
             let (s, m') = append_slice grow (context_s l) args' m
             in Some (\<lparr>to_instance = i, zap_method = zm, message = msg,
                       key_values = elems m' s\<rparr>, m'))
      else
        (case get r l of
           None \<Rightarrow> None
         | Some i \<Rightarrow>
             Some (\<lparr>to_instance = i, zap_method = zm, message = msg,
                    key_values = args'\<rparr>, m)))"

definition Trace where "Trace grow = logw grow Debugw"
definition Debug where "Debug grow = logw grow Debugw"
definition Info where "Info grow = logw grow Infow"
definition Warn where "Warn grow = logw grow Warnw"
definition Error where "Error grow = logw grow Errorw"
definition Fatal where "Fatal grow = logw grow Panicw"

definition clone :: "(nat \<Rightarrow> nat \<Rightarrow> nat) \<Rightarrow> logger \<Rightarrow> Mem \<Rightarrow> logger \<times> Mem" where
  "clone grow l m =
     (let l2 = l\<lparr>context_s := NilSlice\<rparr> in
      if len_s (context_s l) > 0 then
        (let (s, m') = append_slice grow (context_s l2) (elems m (context_s l)) m
         in (l2\<lparr>context_s := s\<rparr>, m'))
      else (l2, m))"

definition With :: "(nat \<Rightarrow> nat \<Rightarrow> nat) \<Rightarrow> Arg list \<Rightarrow> logger \<Rightarrow> Mem \<Rightarrow> logger \<times> Mem" where
  "With grow args l m =
     (let (l2, m1) = clone grow l m;
          args' = normalizeArgs args
      in if length args' = 0 then (l2, m1)
         else (let (s, m2) = append_slice grow (context_s l2) args' m1
               in (l2\<lparr>context_s := s\<rparr>, m2)))"

section \<open>Well-formed registries, operations, effective levels\<close>

text \<open>
  Every state the factory can reach maps each name to one cell, no cell to two names,
  and only allocated cells.
\<close>

definition wf_factory :: "Factory \<Rightarrow> bool" where
  "wf_factory r \<longleftrightarrow>
     distinct (map fst (loggers r)) \<and> distinct (map snd (loggers r)) \<and>
     list_all (\<lambda>na. snd na < next_info r) (loggers r)"

text \<open>The administrative calls of the factory, to speak of sequences of them.\<close>

datatype Op =
  OpSetEncoder "Encoder option"
| OpSetOut "Writer option"
| OpSetAddCaller bool
| OpNewLogger string
| OpSetLevel string Level
| OpSetDefaultLevel Level
| OpLevelsString string
| OpConfigure Config

fun apply_op :: "Pkg \<Rightarrow> Op \<Rightarrow> Factory \<Rightarrow> Factory" where
  "apply_op pkg (OpSetEncoder e) r = SetEncoder pkg e r"
| "apply_op pkg (OpSetOut w) r = snd (SetOut pkg w r)"
| "apply_op pkg (OpSetAddCaller b) r = SetAddCaller pkg b r"
| "apply_op pkg (OpNewLogger name) r = snd (NewLogger pkg name r)"
| "apply_op pkg (OpSetLevel name l) r = SetLevel pkg name l r"
| "apply_op pkg (OpSetDefaultLevel l) r = SetDefaultLevel l r"
| "apply_op pkg (OpLevelsString s) r = snd (LevelsString pkg s r)"
| "apply_op pkg (OpConfigure cfg) r = snd (Configure pkg cfg r)"

definition run_ops :: "Pkg \<Rightarrow> Op list \<Rightarrow> Factory \<Rightarrow> Factory" where
  "run_ops pkg ops r = fold (apply_op pkg) ops r"

text \<open>
  The calls that end in a rebuild pass: all but \<open>NewLogger\<close> and \<open>SetDefaultLevel\<close>,
  and \<open>LevelsString\<close> and \<open>Configure\<close> only when they return no error.
\<close>

fun rebuilds :: "Pkg \<Rightarrow> Op \<Rightarrow> Factory \<Rightarrow> bool" where
  "rebuilds pkg (OpNewLogger name) r = False"
| "rebuilds pkg (OpSetDefaultLevel l) r = False"
| "rebuilds pkg (OpLevelsString s) r = (fst (LevelsString pkg s r) = None)"
| "rebuilds pkg (OpConfigure cfg) r = (fst (Configure pkg cfg r) = None)"
| "rebuilds pkg opn r = True"

text \<open>
  The level a zap core works with: its own when the enabler is a plain level, the
  factory's default of the moment when the enabler is the shared atomic level.
\<close>

fun effective_level :: "Factory \<Rightarrow> Enabler \<Rightarrow> Level" where
  "effective_level r (Fixed l) = l"
| "effective_level r DefaultAtomic = defaultLevel r"

definition recognized_encodings :: "string list" where
  "recognized_encodings = [''json'', ''ltsv'', ''term'', ''term-color'', ''console'', '''']"

text \<open>
  A slice is well-formed in a store when its array is allocated and as long as the
  capacity, and the length is within the capacity.
\<close>

fun wf_slice :: "Mem \<Rightarrow> Slice \<Rightarrow> bool" where
  "wf_slice m NilSlice = True"
| "wf_slice m (Slice a n c) = (a < next_arr m \<and> n \<le> c \<and> length (arrays m a) = c)"

text \<open>Sample values of the parameters, for evaluating the definitions.\<close>

definition samplePkg :: Pkg where
  "samplePkg =
     \<lparr>NewEncoderConfig = \<lparr>EncodeCaller = None, EncodeLevel = None, otherFields = 0\<rparr>,
      NewDevelopmentEncoderConfig =
        \<lparr>EncodeCaller = None, EncodeLevel = None, otherFields = 1\<rparr>\<rparr>"

definition doubling :: "nat \<Rightarrow> nat \<Rightarrow> nat" where
  "doubling oldcap need = 2 * need"

definition emptyMem :: Mem where
  "emptyMem = \<lparr>arrays = (\<lambda>_. []), next_arr = 0\<rparr>"

text \<open>\<open>LevelsString\<close> with its local variables named.\<close>

definition ls_levels :: "string \<Rightarrow> (string \<times> Level) list" where
  "ls_levels s = fst (fold level_of_entry (parseConfigString s) ([], []))"

definition ls_errors :: "string \<Rightarrow> string list" where
  "ls_errors s = snd (fold level_of_entry (parseConfigString s) ([], []))"

definition ls_applied :: "Pkg \<Rightarrow> string \<Rightarrow> Factory \<Rightarrow> Factory" where
  "ls_applied pkg s r =
     (let r1 = (case map_of (ls_levels s) ''*'' of
                  Some d \<Rightarrow> SetDefaultLevel d r | None \<Rightarrow> r);
          lm = (case map_of (ls_levels s) ''*'' of
                  Some d \<Rightarrow> AList.delete ''*'' (ls_levels s) | None \<Rightarrow> ls_levels s)
      in fold (set_entry_level pkg) lm (fold (reset_unnamed lm) (loggers r1) r1))"

text \<open>Two slices over the same backing array.\<close>

fun same_array :: "Slice \<Rightarrow> Slice \<Rightarrow> bool" where
  "same_array (Slice a n c) (Slice b k d) = (a = b)"
| "same_array s t = False"

text \<open>The six logging methods of a facade.\<close>

definition log_methods ::
  "((nat \<Rightarrow> nat \<Rightarrow> nat) \<Rightarrow> string \<Rightarrow> Arg list \<Rightarrow> logger \<Rightarrow> Factory \<Rightarrow> Mem
      \<Rightarrow> (Emitted \<times> Mem) option) list" where
  "log_methods = [Trace, Debug, Info, Warn, Error, Fatal]"

section \<open>The rebuild pass\<close>

lemma set_atomic_simps [simp]:
  "defaultLevel (set_atomic a x r) = defaultLevel r"
  "encoder (set_atomic a x r) = encoder r"
  "out (set_atomic a x r) = out r"
  "loggers (set_atomic a x r) = loggers r"
  "addCaller (set_atomic a x r) = addCaller r"
  "next_info (set_atomic a x r) = next_info r"
  "levelEnabler (infos (set_atomic a x r) b) = levelEnabler (infos r b)"
  "atomicLogger (infos (set_atomic a x r) b) = (if b = a then Some x else atomicLogger (infos r b))"
  by (simp_all add: set_atomic_def)

lemma set_enabler_simps [simp]:
  "defaultLevel (set_enabler a e r) = defaultLevel r"
  "encoder (set_enabler a e r) = encoder r"
  "out (set_enabler a e r) = out r"
  "loggers (set_enabler a e r) = loggers r"
  "addCaller (set_enabler a e r) = addCaller r"
  "next_info (set_enabler a e r) = next_info r"
  "atomicLogger (infos (set_enabler a e r) b) = atomicLogger (infos r b)"
  "levelEnabler (infos (set_enabler a e r) b) = (if b = a then Some e else levelEnabler (infos r b))"
  by (simp_all add: set_enabler_def)

lemma newLogger_cong:
  "encoder r' = encoder r \<Longrightarrow> out r' = out r \<Longrightarrow> addCaller r' = addCaller r \<Longrightarrow>
   levelEnabler i' = levelEnabler i \<Longrightarrow> newLogger pkg r' n i' = newLogger pkg r n i"
  by (simp add: newLogger_def getEncoder_def getOut_def)

lemma refresh_entry_simps [simp]:
  "defaultLevel (refresh_entry pkg na r) = defaultLevel r"
  "encoder (refresh_entry pkg na r) = encoder r"
  "out (refresh_entry pkg na r) = out r"
  "loggers (refresh_entry pkg na r) = loggers r"
  "addCaller (refresh_entry pkg na r) = addCaller r"
  "next_info (refresh_entry pkg na r) = next_info r"
  "levelEnabler (infos (refresh_entry pkg na r) b) = levelEnabler (infos r b)"
  by (simp_all add: refresh_entry_def split: prod.split)

lemma refresh_entry_atomic:
  "atomicLogger (infos (refresh_entry pkg (n, a) r) b) =
     (if b = a then Some (newLogger pkg r n (infos r a)) else atomicLogger (infos r b))"
  by (simp add: refresh_entry_def)

lemma refresh_fold_frame:
  "defaultLevel (fold (refresh_entry pkg) xs r) = defaultLevel r \<and>
   encoder (fold (refresh_entry pkg) xs r) = encoder r \<and>
   out (fold (refresh_entry pkg) xs r) = out r \<and>
   loggers (fold (refresh_entry pkg) xs r) = loggers r \<and>
   addCaller (fold (refresh_entry pkg) xs r) = addCaller r \<and>
   next_info (fold (refresh_entry pkg) xs r) = next_info r \<and>
   levelEnabler (infos (fold (refresh_entry pkg) xs r) b) = levelEnabler (infos r b)"
  by (induction xs arbitrary: r) simp_all

lemma refresh_fold_other:
  "b \<notin> snd ` set xs \<Longrightarrow>
   atomicLogger (infos (fold (refresh_entry pkg) xs r) b) = atomicLogger (infos r b)"
proof (induction xs arbitrary: r)
  case Nil
  then show ?case by simp
next
  case (Cons x xs)
  obtain n' a' where x: "x = (n', a')" by (cases x)
  with Cons.prems have "b \<noteq> a'" "b \<notin> snd ` set xs" by auto
  then show ?case using Cons.IH x by (simp add: refresh_entry_atomic)
qed

lemma refresh_fold_published:
  "distinct (map snd xs) \<Longrightarrow> (n, a) \<in> set xs \<Longrightarrow>
   atomicLogger (infos (fold (refresh_entry pkg) xs r) a) = Some (newLogger pkg r n (infos r a))"
proof (induction xs arbitrary: r)
  case Nil
  then show ?case by simp
next
  case (Cons x xs)
  obtain n' a' where x: "x = (n', a')" by (cases x)
  let ?r1 = "refresh_entry pkg (n', a') r"
  show ?case
  proof (cases "(n, a) \<in> set xs")
    case True
    with Cons.prems have d: "distinct (map snd xs)" by simp
    have "newLogger pkg ?r1 n (infos ?r1 a) = newLogger pkg r n (infos r a)"
      by (rule newLogger_cong) simp_all
    with Cons.IH [OF d True, of ?r1] show ?thesis using x by simp
  next
    case False
    with Cons.prems x have eq: "n' = n" "a' = a" by auto
    from Cons.prems x eq have "a \<notin> snd ` set xs" by force
    then show ?thesis using x eq
      by (simp add: refresh_fold_other refresh_entry_atomic)
  qed
qed

subsection \<open>Registries\<close>

lemma wf_factory_same:
  "loggers r' = loggers r \<Longrightarrow> next_info r' = next_info r \<Longrightarrow> wf_factory r' = wf_factory r"
  by (simp add: wf_factory_def)

lemma update_absent:
  "map_of al k = None \<Longrightarrow> AList.update k v al = al @ [(k, v)]"
  by (induction al) (auto split: if_splits)

lemma map_of_append_single:
  "map_of (al @ [(k, v)]) k' =
     (case map_of al k' of Some x \<Rightarrow> Some x | None \<Rightarrow> if k' = k then Some v else None)"
  by (induction al) auto

lemma fold_invariant:
  "(\<And>x r. P r \<Longrightarrow> P (f x r)) \<Longrightarrow> P r \<Longrightarrow> P (fold f xs r)"
proof (induction xs arbitrary: r)
  case Nil
  then show ?case by simp
next
  case (Cons x xs)
  from Cons.prems(2) have "P (f x r)" by (rule Cons.prems(1))
  with Cons.prems(1) have "P (fold f xs (f x r))" by (rule Cons.IH)
  then show ?case by simp
qed

subsection \<open>refreshLoggers\<close>

lemma refreshLoggers_simps [simp]:
  "defaultLevel (refreshLoggers pkg r) = defaultLevel r"
  "encoder (refreshLoggers pkg r) = encoder r"
  "out (refreshLoggers pkg r) = out r"
  "loggers (refreshLoggers pkg r) = loggers r"
  "addCaller (refreshLoggers pkg r) = addCaller r"
  "next_info (refreshLoggers pkg r) = next_info r"
  "levelEnabler (infos (refreshLoggers pkg r) b) = levelEnabler (infos r b)"
  by (simp_all add: refreshLoggers_def refresh_fold_frame)

lemma refreshLoggers_published:
  assumes "wf_factory r" and "map_of (loggers r) n = Some a"
  shows "atomicLogger (infos (refreshLoggers pkg r) a) = Some (newLogger pkg r n (infos r a))"
proof -
  from assms(2) have "(n, a) \<in> set (loggers r)" by (rule map_of_SomeD)
  moreover from assms(1) have "distinct (map snd (loggers r))" by (simp add: wf_factory_def)
  ultimately show ?thesis
    by (simp add: refreshLoggers_def refresh_fold_published)
qed

lemma refreshLoggers_other:
  "b \<notin> snd ` set (loggers r) \<Longrightarrow>
   atomicLogger (infos (refreshLoggers pkg r) b) = atomicLogger (infos r b)"
  by (simp add: refreshLoggers_def refresh_fold_other)

lemma wf_refreshLoggers [simp]: "wf_factory (refreshLoggers pkg r) = wf_factory r"
  by (rule wf_factory_same) simp_all

subsection \<open>getLoggerInfo and setLevel\<close>

lemma getLoggerInfo_found:
  "map_of (loggers r) n = Some a \<Longrightarrow> getLoggerInfo pkg n r = (a, r)"
  by (simp add: getLoggerInfo_def)

lemma getLoggerInfo_new:
  assumes "map_of (loggers r) n = None"
  shows "fst (getLoggerInfo pkg n r) = next_info r"
    and "loggers (snd (getLoggerInfo pkg n r)) = loggers r @ [(n, next_info r)]"
    and "next_info (snd (getLoggerInfo pkg n r)) = Suc (next_info r)"
    and "levelEnabler (infos (snd (getLoggerInfo pkg n r)) b) =
           (if b = next_info r then None else levelEnabler (infos r b))"
    and "atomicLogger (infos (snd (getLoggerInfo pkg n r)) b) =
           (if b = next_info r
            then Some (newLogger pkg r n \<lparr>levelEnabler = None, atomicLogger = None\<rparr>)
            else atomicLogger (infos r b))"
  using assms
  by (simp_all add: getLoggerInfo_def Let_def update_absent set_atomic_def
        newLogger_def getEncoder_def getOut_def)


lemma getLoggerInfo_shared [simp]:
  "defaultLevel (snd (getLoggerInfo pkg n r)) = defaultLevel r"
  "encoder (snd (getLoggerInfo pkg n r)) = encoder r"
  "out (snd (getLoggerInfo pkg n r)) = out r"
  "addCaller (snd (getLoggerInfo pkg n r)) = addCaller r"
  by (simp_all add: getLoggerInfo_def Let_def split: option.split)

lemma getLoggerInfo_registered:
  "map_of (loggers (snd (getLoggerInfo pkg n r))) n = Some (fst (getLoggerInfo pkg n r))"
  by (cases "map_of (loggers r) n")
     (simp_all add: getLoggerInfo_new getLoggerInfo_found map_add_def)

lemma getLoggerInfo_keeps:
  "map_of (loggers r) k = Some a \<Longrightarrow> map_of (loggers (snd (getLoggerInfo pkg n r))) k = Some a"
  by (cases "map_of (loggers r) n")
     (simp_all add: getLoggerInfo_new getLoggerInfo_found map_add_def)

lemma wf_getLoggerInfo:
  assumes "wf_factory r"
  shows "wf_factory (snd (getLoggerInfo pkg n r))"
proof (cases "map_of (loggers r) n")
  case None
  then have "n \<notin> fst ` set (loggers r)" by (simp add: map_of_eq_None_iff)
  moreover from assms have "next_info r \<notin> snd ` set (loggers r)"
    by (auto simp add: wf_factory_def list_all_iff)
  ultimately show ?thesis using assms None
    by (auto simp add: wf_factory_def getLoggerInfo_new list_all_iff)
next
  case (Some a)
  with assms show ?thesis by (simp add: getLoggerInfo_found)
qed

lemma setLevel_simps [simp]:
  "defaultLevel (setLevel pkg n l r) = defaultLevel r"
  "encoder (setLevel pkg n l r) = encoder r"
  "out (setLevel pkg n l r) = out r"
  "addCaller (setLevel pkg n l r) = addCaller r"
  "loggers (setLevel pkg n l r) = loggers (snd (getLoggerInfo pkg n r))"
  "next_info (setLevel pkg n l r) = next_info (snd (getLoggerInfo pkg n r))"
  "atomicLogger (infos (setLevel pkg n l r) b) = atomicLogger (infos (snd (getLoggerInfo pkg n r)) b)"
  "levelEnabler (infos (setLevel pkg n l r) b) =
     (if b = fst (getLoggerInfo pkg n r) then Some (Fixed l)
      else levelEnabler (infos (snd (getLoggerInfo pkg n r)) b))"
  by (simp_all add: setLevel_def split_beta)

lemma setLevel_keeps:
  "map_of (loggers r) k = Some a \<Longrightarrow> map_of (loggers (setLevel pkg n l r)) k = Some a"
  by (simp add: getLoggerInfo_keeps)

lemma wf_setLevel: "wf_factory r \<Longrightarrow> wf_factory (setLevel pkg n l r)"
proof -
  assume "wf_factory r"
  then have "wf_factory (snd (getLoggerInfo pkg n r))" by (rule wf_getLoggerInfo)
  moreover have "wf_factory (setLevel pkg n l r) = wf_factory (snd (getLoggerInfo pkg n r))"
    by (rule wf_factory_same) simp_all
  ultimately show ?thesis by simp
qed

lemma setLevel_registered:
  "map_of (loggers (setLevel pkg n l r)) n = Some (fst (getLoggerInfo pkg n r))"
  by (simp add: getLoggerInfo_registered)

subsection \<open>The loops of LevelsString\<close>

lemma reset_unnamed_simps [simp]:
  "defaultLevel (reset_unnamed lm na r) = defaultLevel r"
  "encoder (reset_unnamed lm na r) = encoder r"
  "out (reset_unnamed lm na r) = out r"
  "loggers (reset_unnamed lm na r) = loggers r"
  "addCaller (reset_unnamed lm na r) = addCaller r"
  "next_info (reset_unnamed lm na r) = next_info r"
  "atomicLogger (infos (reset_unnamed lm na r) b) = atomicLogger (infos r b)"
  by (simp_all add: reset_unnamed_def split: prod.split)

lemma reset_fold_frame:
  "defaultLevel (fold (reset_unnamed lm) xs r) = defaultLevel r \<and>
   encoder (fold (reset_unnamed lm) xs r) = encoder r \<and>
   out (fold (reset_unnamed lm) xs r) = out r \<and>
   loggers (fold (reset_unnamed lm) xs r) = loggers r \<and>
   addCaller (fold (reset_unnamed lm) xs r) = addCaller r \<and>
   next_info (fold (reset_unnamed lm) xs r) = next_info r \<and>
   atomicLogger (infos (fold (reset_unnamed lm) xs r) b) = atomicLogger (infos r b)"
  by (induction xs arbitrary: r) simp_all

lemma reset_unnamed_enabler:
  "levelEnabler (infos (reset_unnamed lm (n, a) r) b) =
     (if b = a \<and> map_of lm n = None then Some DefaultAtomic else levelEnabler (infos r b))"
  by (simp add: reset_unnamed_def)

lemma reset_fold_enabler:
  "levelEnabler (infos (fold (reset_unnamed lm) xs r) b) =
     (if \<exists>n. (n, b) \<in> set xs \<and> map_of lm n = None then Some DefaultAtomic
      else levelEnabler (infos r b))"
proof (induction xs arbitrary: r)
  case Nil
  then show ?case by simp
next
  case (Cons x xs)
  obtain n a where x: "x = (n, a)" by (cases x)
  show ?case unfolding x
    by (auto simp add: Cons.IH reset_unnamed_enabler)
qed

lemma set_entry_level_keeps:
  "map_of (loggers r) k = Some a \<Longrightarrow> map_of (loggers (set_entry_level pkg nl r)) k = Some a"
  by (cases nl) (simp add: set_entry_level_def getLoggerInfo_keeps)

lemma set_entry_level_shared [simp]:
  "defaultLevel (set_entry_level pkg nl r) = defaultLevel r"
  "encoder (set_entry_level pkg nl r) = encoder r"
  "out (set_entry_level pkg nl r) = out r"
  "addCaller (set_entry_level pkg nl r) = addCaller r"
  by (cases nl; simp add: set_entry_level_def)+

lemma wf_set_entry_level: "wf_factory r \<Longrightarrow> wf_factory (set_entry_level pkg nl r)"
  by (cases nl) (simp add: set_entry_level_def wf_setLevel)

lemma set_levels_fold_shared:
  "defaultLevel (fold (set_entry_level pkg) lm r) = defaultLevel r \<and>
   encoder (fold (set_entry_level pkg) lm r) = encoder r \<and>
   out (fold (set_entry_level pkg) lm r) = out r \<and>
   addCaller (fold (set_entry_level pkg) lm r) = addCaller r"
  by (induction lm arbitrary: r) simp_all

lemma set_levels_fold_keeps:
  "map_of (loggers r) k = Some a \<Longrightarrow>
   map_of (loggers (fold (set_entry_level pkg) lm r)) k = Some a"
  by (induction lm arbitrary: r) (simp_all add: set_entry_level_keeps)

lemma wf_set_levels_fold:
  "wf_factory r \<Longrightarrow> wf_factory (fold (set_entry_level pkg) lm r)"
  by (induction lm arbitrary: r) (simp_all add: wf_set_entry_level)

lemma wf_reset_fold: "wf_factory (fold (reset_unnamed lm) xs r) = wf_factory r"
  by (rule wf_factory_same) (simp_all add: reset_fold_frame)

subsection \<open>The administrative calls keep the registry well-formed\<close>

lemma SetDefaultLevel_simps [simp]:
  "defaultLevel (SetDefaultLevel l r) = l"
  "encoder (SetDefaultLevel l r) = encoder r"
  "out (SetDefaultLevel l r) = out r"
  "loggers (SetDefaultLevel l r) = loggers r"
  "addCaller (SetDefaultLevel l r) = addCaller r"
  "next_info (SetDefaultLevel l r) = next_info r"
  "infos (SetDefaultLevel l r) = infos r"
  by (simp_all add: SetDefaultLevel_def)

lemma wf_SetDefaultLevel [simp]: "wf_factory (SetDefaultLevel l r) = wf_factory r"
  by (rule wf_factory_same) simp_all

lemma LevelsString_unfold:
  "LevelsString pkg s r =
     (if ls_errors s \<noteq> []
      then (Some (''errors parsing config string: '' @ Join (ls_errors s) '', ''),
            ls_applied pkg s r)
      else (None, refreshLoggers pkg (ls_applied pkg s r)))"
  by (simp add: LevelsString_def ls_levels_def ls_errors_def ls_applied_def Let_def
        split_beta split: option.split)

lemma wf_ls_applied: "wf_factory r \<Longrightarrow> wf_factory (ls_applied pkg s r)"
  by (simp add: ls_applied_def Let_def wf_set_levels_fold wf_reset_fold split: option.split)

lemma ls_applied_keeps:
  "map_of (loggers r) k = Some a \<Longrightarrow> map_of (loggers (ls_applied pkg s r)) k = Some a"
  by (simp add: ls_applied_def Let_def set_levels_fold_keeps reset_fold_frame split: option.split)

lemma ls_applied_shared [simp]:
  "encoder (ls_applied pkg s r) = encoder r"
  "out (ls_applied pkg s r) = out r"
  "addCaller (ls_applied pkg s r) = addCaller r"
  by (simp_all add: ls_applied_def Let_def set_levels_fold_shared reset_fold_frame
        split: option.split)

lemma wf_LevelsString: "wf_factory r \<Longrightarrow> wf_factory (snd (LevelsString pkg s r))"
  by (simp add: LevelsString_unfold wf_ls_applied)

lemma LevelsString_keeps:
  "map_of (loggers r) k = Some a \<Longrightarrow> map_of (loggers (snd (LevelsString pkg s r))) k = Some a"
  by (simp add: LevelsString_unfold ls_applied_keeps)

lemma LevelsString_shared [simp]:
  "encoder (snd (LevelsString pkg s r)) = encoder r"
  "out (snd (LevelsString pkg s r)) = out r"
  "addCaller (snd (LevelsString pkg s r)) = addCaller r"
  by (simp_all add: LevelsString_unfold)

lemma Configure_unfold:
  "Configure pkg cfg r =
     (case chooseEncoder cfg (chooseEncoderConfig pkg cfg) of
        None \<Rightarrow>
          (Some (Encoding cfg @
             '' is not a valid encoding, must be one of: json, ltsv, term, or term-color''),
           SetDefaultLevel (DefaultLevel cfg) r)
      | Some e \<Rightarrow>
          (None,
           refreshLoggers pkg
             ((snd (LevelsString pkg (Levels cfg) (SetDefaultLevel (DefaultLevel cfg) r)))
                \<lparr>encoder := Some e,
                 addCaller := (case AddCaller cfg of Some b \<Rightarrow> b | None \<Rightarrow> Development cfg)\<rparr>)))"
  by (simp add: Configure_def Let_def split: option.split)

lemma wf_Configure: "wf_factory r \<Longrightarrow> wf_factory (snd (Configure pkg cfg r))"
proof -
  assume w: "wf_factory r"
  let ?r2 = "snd (LevelsString pkg (Levels cfg) (SetDefaultLevel (DefaultLevel cfg) r))"
  from w have w2: "wf_factory ?r2" by (simp add: wf_LevelsString)
  have "\<And>e b. wf_factory (?r2\<lparr>encoder := e, addCaller := b\<rparr>) = wf_factory ?r2"
    by (rule wf_factory_same) simp_all
  with w w2 show ?thesis
    by (simp add: Configure_unfold split: option.split)
qed

lemma Configure_keeps:
  "map_of (loggers r) k = Some a \<Longrightarrow> map_of (loggers (snd (Configure pkg cfg r))) k = Some a"
  by (simp add: Configure_unfold LevelsString_keeps split: option.split)

lemma NewLogger_eq:
  "NewLogger pkg n r =
     (\<lparr>atomicLogger_ptr = fst (getLoggerInfo pkg n r), context_s = NilSlice\<rparr>,
      snd (getLoggerInfo pkg n r))"
  by (simp add: NewLogger_def NewDeprecatedLogger_def split_beta)

lemma wf_apply_op: "wf_factory r \<Longrightarrow> wf_factory (apply_op pkg opn r)"
proof (cases opn)
  case (OpSetEncoder e)
  assume w: "wf_factory r"
  have "wf_factory (r\<lparr>encoder := e\<rparr>) = wf_factory r" by (rule wf_factory_same) simp_all
  with w OpSetEncoder show ?thesis by (simp add: SetEncoder_def)
next
  case (OpSetOut w')
  assume w: "wf_factory r"
  have "wf_factory (r\<lparr>out := w'\<rparr>) = wf_factory r" by (rule wf_factory_same) simp_all
  with w OpSetOut show ?thesis by (simp add: SetOut_def setOut_def)
next
  case (OpSetAddCaller b)
  assume w: "wf_factory r"
  have "wf_factory (r\<lparr>addCaller := b\<rparr>) = wf_factory r" by (rule wf_factory_same) simp_all
  with w OpSetAddCaller show ?thesis by (simp add: SetAddCaller_def)
next
  case (OpNewLogger n)
  assume "wf_factory r"
  with OpNewLogger show ?thesis by (simp add: NewLogger_eq wf_getLoggerInfo)
next
  case (OpSetLevel n l)
  assume "wf_factory r"
  with OpSetLevel show ?thesis by (simp add: SetLevel_def wf_setLevel)
next
  case (OpSetDefaultLevel l)
  assume "wf_factory r"
  with OpSetDefaultLevel show ?thesis by simp
next
  case (OpLevelsString s)
  assume "wf_factory r"
  with OpLevelsString show ?thesis by (simp add: wf_LevelsString)
next
  case (OpConfigure cfg)
  assume "wf_factory r"
  with OpConfigure show ?thesis by (simp add: wf_Configure)
qed

lemma apply_op_keeps:
  "map_of (loggers r) k = Some a \<Longrightarrow> map_of (loggers (apply_op pkg opn r)) k = Some a"
  by (cases opn)
     (simp_all add: SetEncoder_def SetOut_def setOut_def SetAddCaller_def NewLogger_eq
        getLoggerInfo_keeps SetLevel_def LevelsString_keeps Configure_keeps)

lemma wf_run_ops: "wf_factory r \<Longrightarrow> wf_factory (run_ops pkg ops r)"
  unfolding run_ops_def by (induction ops arbitrary: r) (simp_all add: wf_apply_op)

lemma run_ops_keeps:
  "map_of (loggers r) k = Some a \<Longrightarrow> map_of (loggers (run_ops pkg ops r)) k = Some a"
  unfolding run_ops_def by (induction ops arbitrary: r) (simp_all add: apply_op_keeps)

lemma wf_NewFactory: "wf_factory NewFactory"
  by (simp add: wf_factory_def NewFactory_def SetDefaultLevel_def)

lemma refresh_fold_settings:
  "(n, a) \<in> set xs \<Longrightarrow>
   \<exists>i. atomicLogger (infos (fold (refresh_entry pkg) xs r) a) = Some i \<and>
       core_out i = getOut r \<and> core_enc i = getEncoder pkg r \<and> with_caller i = addCaller r"
proof (induction xs arbitrary: r n)
  case Nil
  then show ?case by simp
next
  case (Cons x xs)
  obtain n' a' where x: "x = (n', a')" by (cases x)
  let ?r1 = "refresh_entry pkg (n', a') r"
  have same: "getOut ?r1 = getOut r" "getEncoder pkg ?r1 = getEncoder pkg r"
    by (simp_all add: getOut_def getEncoder_def)
  show ?case
  proof (cases "a \<in> snd ` set xs")
    case True
    then obtain n2 where "(n2, a) \<in> set xs" by auto
    from Cons.IH [OF this, of ?r1] show ?thesis using x same by simp
  next
    case False
    with Cons.prems x have "a' = a" by force
    with False show ?thesis using x
      by (simp add: refresh_fold_other refresh_entry_atomic newLogger_def)
  qed
qed

lemma refreshLoggers_settings:
  "(n, a) \<in> set (loggers r) \<Longrightarrow>
   \<exists>i. atomicLogger (infos (refreshLoggers pkg r) a) = Some i \<and>
       core_out i = getOut r \<and> core_enc i = getEncoder pkg r \<and> with_caller i = addCaller r"
  unfolding refreshLoggers_def by (rule refresh_fold_settings)

lemma logw_returns:
  "get r l = Some i \<Longrightarrow>
   \<exists>e m'. logw grow zm msg args l r m = Some (e, m') \<and> to_instance e = i \<and>
          zap_method e = zm \<and> message e = msg"
  by (simp add: logw_def Let_def split_beta)

lemma refreshLoggers_current:
  assumes "wf_factory x" and "map_of (loggers x) n = Some a"
  shows "atomicLogger (infos (refreshLoggers pkg x) a) =
           Some (newLogger pkg (refreshLoggers pkg x) n (infos (refreshLoggers pkg x) a))"
proof -
  have "newLogger pkg (refreshLoggers pkg x) n (infos (refreshLoggers pkg x) a) =
        newLogger pkg x n (infos x a)"
    by (rule newLogger_cong) simp_all
  with refreshLoggers_published [OF assms, of pkg] show ?thesis by simp
qed

lemma wf_update_shared:
  "wf_factory (r\<lparr>encoder := e\<rparr>) = wf_factory r"
  "wf_factory (r\<lparr>out := w\<rparr>) = wf_factory r"
  "wf_factory (r\<lparr>addCaller := b\<rparr>) = wf_factory r"
  "wf_factory (r\<lparr>encoder := e, addCaller := b\<rparr>) = wf_factory r"
  by (simp_all add: wf_factory_def)

lemma rebuilds_is_refresh:
  assumes "wf_factory r" and "rebuilds pkg opn r"
  shows "\<exists>x. wf_factory x \<and> apply_op pkg opn r = refreshLoggers pkg x"
proof (cases opn)
  case (OpSetEncoder e)
  with assms(1) show ?thesis
    by (auto simp add: SetEncoder_def wf_update_shared intro!: exI [of _ "r\<lparr>encoder := e\<rparr>"])
next
  case (OpSetOut w)
  with assms(1) show ?thesis
    by (auto simp add: SetOut_def setOut_def wf_update_shared intro!: exI [of _ "r\<lparr>out := w\<rparr>"])
next
  case (OpSetAddCaller b)
  with assms(1) show ?thesis
    by (auto simp add: SetAddCaller_def wf_update_shared intro!: exI [of _ "r\<lparr>addCaller := b\<rparr>"])
next
  case (OpNewLogger n)
  with assms(2) show ?thesis by simp
next
  case (OpSetLevel n l)
  with assms(1) show ?thesis
    by (auto simp add: SetLevel_def wf_setLevel intro!: exI [of _ "setLevel pkg n l r"])
next
  case (OpSetDefaultLevel l)
  with assms(2) show ?thesis by simp
next
  case (OpLevelsString s)
  with assms show ?thesis
    by (auto simp add: LevelsString_unfold wf_ls_applied split: if_splits
          intro!: exI [of _ "ls_applied pkg s r"])
next
  case (OpConfigure cfg)
  let ?r2 = "snd (LevelsString pkg (Levels cfg) (SetDefaultLevel (DefaultLevel cfg) r))"
  from assms(1) have "wf_factory ?r2" by (simp add: wf_LevelsString)
  then have "\<And>e b. wf_factory (?r2\<lparr>encoder := e, addCaller := b\<rparr>)"
    by (simp add: wf_update_shared)
  then have "\<And>e b. \<exists>x. wf_factory x \<and>
      refreshLoggers pkg (?r2\<lparr>encoder := e, addCaller := b\<rparr>) = refreshLoggers pkg x"
    by blast
  with OpConfigure assms(2) show ?thesis
    by (simp add: Configure_unfold split: option.splits)
qed

lemma rebuilds_current:
  assumes "wf_factory r" and "rebuilds pkg opn r"
    and "map_of (loggers (apply_op pkg opn r)) n = Some a"
  shows "atomicLogger (infos (apply_op pkg opn r) a) =
           Some (newLogger pkg (apply_op pkg opn r) n (infos (apply_op pkg opn r) a))"
proof -
  from rebuilds_is_refresh [OF assms(1,2)] obtain x
    where x: "wf_factory x" "apply_op pkg opn r = refreshLoggers pkg x" by blast
  from assms(3) x(2) have "map_of (loggers x) n = Some a" by simp
  from refreshLoggers_current [OF x(1) this, of pkg] show ?thesis by (simp add: x(2))
qed

lemma one_entry_per_name:
  "distinct (map fst xs) \<Longrightarrow> map_of xs n = Some a \<Longrightarrow>
   filter (\<lambda>na. fst na = n) xs = [(n, a)]"
proof (induction xs)
  case Nil
  then show ?case by simp
next
  case (Cons x xs)
  obtain k v where x: "x = (k, v)" by (cases x)
  show ?case
  proof (cases "k = n")
    case True
    with Cons.prems x have "n \<notin> fst ` set xs" "v = a" by auto
    then have "filter (\<lambda>na. fst na = n) xs = []"
      by (auto simp add: filter_empty_conv)
    with True x \<open>v = a\<close> show ?thesis by simp
  next
    case False
    with Cons x show ?thesis by simp
  qed
qed

subsection \<open>A level string with a default and one name\<close>

lemma distinct_cells:
  "distinct (map snd xs) \<Longrightarrow> (n, a) \<in> set xs \<Longrightarrow> (h, b) \<in> set xs \<Longrightarrow> n \<noteq> h \<Longrightarrow> a \<noteq> b"
  by (induction xs) force+

lemma getLoggerInfo_enabler_other:
  "b \<noteq> fst (getLoggerInfo pkg n r) \<Longrightarrow>
   levelEnabler (infos (snd (getLoggerInfo pkg n r)) b) = levelEnabler (infos r b)"
  by (cases "map_of (loggers r) n") (simp_all add: getLoggerInfo_new getLoggerInfo_found)

lemma LevelsString_default_and_one:
  assumes wf: "wf_factory r"
    and lv: "ls_levels s = [(''*'', d), (h, L)]"
    and er: "ls_errors s = []"
    and h: "h \<noteq> ''*''"
  shows "fst (LevelsString pkg s r) = None"
    and "defaultLevel (snd (LevelsString pkg s r)) = d"
    and "\<exists>b. map_of (loggers (snd (LevelsString pkg s r))) h = Some b \<and>
             levelEnabler (infos (snd (LevelsString pkg s r)) b) = Some (Fixed L) \<and>
             map_option core_lvl (atomicLogger (infos (snd (LevelsString pkg s r)) b)) =
               Some (Fixed L)"
    and "n \<noteq> h \<Longrightarrow> map_of (loggers r) n = Some a \<Longrightarrow>
           map_of (loggers (snd (LevelsString pkg s r))) n = Some a \<and>
           levelEnabler (infos (snd (LevelsString pkg s r)) a) = Some DefaultAtomic \<and>
           map_option core_lvl (atomicLogger (infos (snd (LevelsString pkg s r)) a)) =
             Some DefaultAtomic"
proof -
  define R2 where "R2 = fold (reset_unnamed [(h, L)]) (loggers r) (SetDefaultLevel d r)"
  define R3 where "R3 = setLevel pkg h L R2"
  define b where "b = fst (getLoggerInfo pkg h R2)"
  have app: "ls_applied pkg s r = R3"
    using h by (simp add: ls_applied_def lv set_entry_level_def R3_def R2_def)
  have res: "LevelsString pkg s r = (None, refreshLoggers pkg R3)"
    by (simp add: LevelsString_unfold er app)
  show "fst (LevelsString pkg s r) = None" by (simp add: res)
  show "defaultLevel (snd (LevelsString pkg s r)) = d"
    by (simp add: res R3_def R2_def reset_fold_frame)
  from wf have wf2: "wf_factory R2" by (simp add: R2_def wf_reset_fold)
  then have wf3: "wf_factory R3" by (simp add: R3_def wf_setLevel)
  have regb: "map_of (loggers R3) h = Some b"
    by (simp add: R3_def b_def getLoggerInfo_registered)
  have enb: "levelEnabler (infos R3 b) = Some (Fixed L)"
    by (simp add: R3_def b_def)
  from refreshLoggers_published [OF wf3 regb, of pkg] enb
  have "map_option core_lvl (atomicLogger (infos (refreshLoggers pkg R3) b)) = Some (Fixed L)"
    by (simp add: newLogger_def)
  with regb enb
  show "\<exists>b. map_of (loggers (snd (LevelsString pkg s r))) h = Some b \<and>
             levelEnabler (infos (snd (LevelsString pkg s r)) b) = Some (Fixed L) \<and>
             map_option core_lvl (atomicLogger (infos (snd (LevelsString pkg s r)) b)) =
               Some (Fixed L)"
    by (simp add: res)
  show "map_of (loggers (snd (LevelsString pkg s r))) n = Some a \<and>
           levelEnabler (infos (snd (LevelsString pkg s r)) a) = Some DefaultAtomic \<and>
           map_option core_lvl (atomicLogger (infos (snd (LevelsString pkg s r)) a)) =
             Some DefaultAtomic"
    if nh: "n \<noteq> h" and reg: "map_of (loggers r) n = Some a"
  proof -
    from reg have reg2: "map_of (loggers R2) n = Some a"
      by (simp add: R2_def reset_fold_frame)
    then have reg3: "map_of (loggers R3) n = Some a"
      unfolding R3_def by (rule setLevel_keeps)
    from wf3 have "distinct (map snd (loggers R3))" by (simp add: wf_factory_def)
    from distinct_cells [OF this map_of_SomeD [OF reg3] map_of_SomeD [OF regb] nh]
    have ab: "a \<noteq> b" .
    from reg have "(n, a) \<in> set (loggers r)" by (rule map_of_SomeD)
    with nh have "levelEnabler (infos R2 a) = Some DefaultAtomic"
      by (auto simp add: R2_def reset_fold_enabler)
    with ab have ena: "levelEnabler (infos R3 a) = Some DefaultAtomic"
      by (simp add: R3_def b_def getLoggerInfo_enabler_other)
    from refreshLoggers_published [OF wf3 reg3, of pkg] ena
    have "map_option core_lvl (atomicLogger (infos (refreshLoggers pkg R3) a)) =
            Some DefaultAtomic"
      by (simp add: newLogger_def)
    with reg3 ena show ?thesis by (simp add: res)
  qed
qed

lemma ls_star_inf_http:
  "ls_levels ''*=INF,http'' = [(''*'', InfoLevel), (''http'', AllLevel)]"
  "ls_errors ''*=INF,http'' = []"
  "ls_levels ''*=INF,-http'' = [(''*'', InfoLevel), (''http'', OffLevel)]"
  "ls_errors ''*=INF,-http'' = []"
  by (simp_all add: ls_levels_def ls_errors_def parseConfigString_def parse_setting_def
        HasPrefix_def level_of_entry_def levelForAbbr_def lower_byte_def)

subsection \<open>Slices\<close>

lemma wf_len_elems: "wf_slice m s \<Longrightarrow> length (elems m s) = len_s s"
  by (cases s) auto

lemma append_slice_elems:
  assumes "wf_slice m s"
  shows "elems (snd (append_slice grow s xs m)) (fst (append_slice grow s xs m)) =
           elems m s @ xs"
proof (cases s)
  case NilSlice
  then show ?thesis by (auto simp add: append_slice_def Let_def)
next
  case (Slice a n c)
  with assms show ?thesis by (auto simp add: append_slice_def Let_def)
qed

lemma append_slice_wf:
  assumes "wf_slice m s"
  shows "wf_slice (snd (append_slice grow s xs m)) (fst (append_slice grow s xs m))"
proof (cases s)
  case NilSlice
  then show ?thesis by (auto simp add: append_slice_def Let_def)
next
  case (Slice a n c)
  with assms show ?thesis by (auto simp add: append_slice_def Let_def)
qed

lemma append_slice_next: "next_arr m \<le> next_arr (snd (append_slice grow s xs m))"
  by (cases s) (auto simp add: append_slice_def Let_def)

lemma append_slice_other:
  assumes "wf_slice m s" and "wf_slice m t" and "same_array s t \<longrightarrow> len_s t \<le> len_s s"
  shows "elems (snd (append_slice grow s xs m)) t = elems m t \<and>
         wf_slice (snd (append_slice grow s xs m)) t"
proof (cases t)
  case NilSlice
  then show ?thesis by simp
next
  case t: (Slice b k d)
  show ?thesis
  proof (cases s)
    case NilSlice
    with assms t show ?thesis by (auto simp add: append_slice_def Let_def)
  next
    case (Slice a n c)
    with assms t show ?thesis by (auto simp add: append_slice_def Let_def)
  qed
qed

lemma append_slice_result:
  assumes "wf_slice m s" and "wf_slice m t"
  shows "fst (append_slice grow s xs m) = NilSlice \<or>
         same_array s (fst (append_slice grow s xs m)) \<or>
         \<not> same_array (fst (append_slice grow s xs m)) t"
proof (cases s)
  case NilSlice
  with assms show ?thesis by (cases t) (auto simp add: append_slice_def Let_def)
next
  case (Slice a n c)
  with assms show ?thesis by (cases t) (auto simp add: append_slice_def Let_def)
qed

lemma same_array_trans: "same_array s u \<Longrightarrow> same_array u t \<Longrightarrow> same_array s t"
  by (cases s; cases u; cases t) simp_all

lemma logw_fields:
  assumes "wf_slice m (context_s l)" and "get r l = Some i"
  shows "\<exists>e m2. logw grow zm msg args l r m = Some (e, m2) \<and> to_instance e = i \<and>
           zap_method e = zm \<and> message e = msg \<and>
           key_values e = elems m (context_s l) @ normalizeArgs args \<and>
           (\<forall>t. wf_slice m t \<longrightarrow> (same_array (context_s l) t \<longrightarrow> len_s t \<le> len_s (context_s l)) \<longrightarrow>
                elems m2 t = elems m t \<and> wf_slice m2 t)"
proof (cases "len_s (context_s l) > 0")
  case True
  let ?p = "append_slice grow (context_s l) (normalizeArgs args) m"
  have "elems (snd ?p) (fst ?p) = elems m (context_s l) @ normalizeArgs args"
    using assms(1) by (rule append_slice_elems)
  moreover have "\<forall>t. wf_slice m t \<longrightarrow>
      (same_array (context_s l) t \<longrightarrow> len_s t \<le> len_s (context_s l)) \<longrightarrow>
      elems (snd ?p) t = elems m t \<and> wf_slice (snd ?p) t"
    using append_slice_other [OF assms(1)] by blast
  ultimately show ?thesis using True assms(2)
    by (simp add: logw_def Let_def split_beta)
next
  case False
  with assms(1) have "elems m (context_s l) = []"
    using wf_len_elems [of m "context_s l"] by simp
  with False assms(2) show ?thesis by (simp add: logw_def Let_def)
qed

lemma clone_props:
  assumes "wf_slice m (context_s l)"
  shows "elems (snd (clone grow l m)) (context_s (fst (clone grow l m))) = elems m (context_s l)"
    and "wf_slice (snd (clone grow l m)) (context_s (fst (clone grow l m)))"
    and "elems (snd (clone grow l m)) (context_s l) = elems m (context_s l)"
    and "wf_slice (snd (clone grow l m)) (context_s l)"
    and "\<not> same_array (context_s (fst (clone grow l m))) (context_s l)"
    and "atomicLogger_ptr (fst (clone grow l m)) = atomicLogger_ptr l"
proof -
  let ?xs = "elems m (context_s l)"
  let ?p = "append_slice grow NilSlice ?xs m"
  have wn: "wf_slice m NilSlice" by simp
  have e: "elems (snd ?p) (fst ?p) = ?xs"
    using append_slice_elems [OF wn, of grow ?xs] by simp
  have w: "wf_slice (snd ?p) (fst ?p)" using wn by (rule append_slice_wf)
  have o: "elems (snd ?p) (context_s l) = ?xs \<and> wf_slice (snd ?p) (context_s l)"
    using wn assms by (rule append_slice_other) simp
  have d: "\<not> same_array (fst ?p) (context_s l)"
    using append_slice_result [OF wn assms, of grow ?xs] by auto
  have z: "len_s (context_s l) = 0 \<Longrightarrow> ?xs = []"
    using assms wf_len_elems [of m "context_s l"] by simp
  show "elems (snd (clone grow l m)) (context_s (fst (clone grow l m))) = elems m (context_s l)"
    using e z by (simp add: clone_def Let_def split_beta)
  show "wf_slice (snd (clone grow l m)) (context_s (fst (clone grow l m)))"
    using w by (simp add: clone_def Let_def split_beta)
  show "elems (snd (clone grow l m)) (context_s l) = elems m (context_s l)"
    using o by (simp add: clone_def Let_def split_beta)
  show "wf_slice (snd (clone grow l m)) (context_s l)"
    using o assms by (simp add: clone_def Let_def split_beta)
  show "\<not> same_array (context_s (fst (clone grow l m))) (context_s l)"
    using d by (simp add: clone_def Let_def split_beta)
  show "atomicLogger_ptr (fst (clone grow l m)) = atomicLogger_ptr l"
    by (simp add: clone_def Let_def split_beta)
qed

lemma With_props:
  assumes "wf_slice m (context_s l)"
  shows "elems (snd (With grow args l m)) (context_s (fst (With grow args l m))) =
           elems m (context_s l) @ normalizeArgs args"
    and "wf_slice (snd (With grow args l m)) (context_s (fst (With grow args l m)))"
    and "elems (snd (With grow args l m)) (context_s l) = elems m (context_s l)"
    and "wf_slice (snd (With grow args l m)) (context_s l)"
    and "\<not> same_array (context_s (fst (With grow args l m))) (context_s l)"
    and "atomicLogger_ptr (fst (With grow args l m)) = atomicLogger_ptr l"
proof -
  define l2 where "l2 = fst (clone grow l m)"
  define m1 where "m1 = snd (clone grow l m)"
  note c = clone_props [OF assms, of grow, folded l2_def m1_def]
  let ?p = "append_slice grow (context_s l2) (normalizeArgs args) m1"
  have e: "elems (snd ?p) (fst ?p) = elems m (context_s l) @ normalizeArgs args"
    using append_slice_elems [OF c(2), of grow "normalizeArgs args"] c(1) by simp
  have w: "wf_slice (snd ?p) (fst ?p)" using c(2) by (rule append_slice_wf)
  have o: "elems (snd ?p) (context_s l) = elems m (context_s l) \<and>
           wf_slice (snd ?p) (context_s l)"
    using append_slice_other [OF c(2) c(4), of grow "normalizeArgs args"] c(3,5) by simp
  have d: "\<not> same_array (fst ?p) (context_s l)"
  proof
    assume s: "same_array (fst ?p) (context_s l)"
    from append_slice_result [OF c(2) c(4), of grow "normalizeArgs args"] s
    have "same_array (context_s l2) (fst ?p)" by auto
    from same_array_trans [OF this s] c(5) show False by simp
  qed
  have W: "With grow args l m =
     (if length (normalizeArgs args) = 0 then (l2, m1)
      else (l2\<lparr>context_s := fst ?p\<rparr>, snd ?p))"
    by (simp add: With_def Let_def split_beta l2_def m1_def)
  show "elems (snd (With grow args l m)) (context_s (fst (With grow args l m))) =
           elems m (context_s l) @ normalizeArgs args"
    using e c(1) by (simp add: W)
  show "wf_slice (snd (With grow args l m)) (context_s (fst (With grow args l m)))"
    using w c(2) by (simp add: W)
  show "elems (snd (With grow args l m)) (context_s l) = elems m (context_s l)"
    using o c(3) by (simp add: W)
  show "wf_slice (snd (With grow args l m)) (context_s l)"
    using o c(4) by (simp add: W)
  show "\<not> same_array (context_s (fst (With grow args l m))) (context_s l)"
    using d c(5) by (simp add: W)
  show "atomicLogger_ptr (fst (With grow args l m)) = atomicLogger_ptr l"
    using c(6) by (simp add: W)
qed

subsection \<open>Evaluation\<close>

lemmas factory_eval =
  NewFactory_def SetDefaultLevel_def getEncoder_def getOut_def newLogger_def
  set_atomic_def set_enabler_def refresh_entry_def refreshLoggers_def getLoggerInfo_def
  setLevel_def SetLevel_def SetEncoder_def SetAddCaller_def setOut_def SetOut_def
  NewLogger_def NewDeprecatedLogger_def run_ops_def get_def samplePkg_def Let_def

lemmas levels_eval =
  LevelsString_def parseConfigString_def parse_setting_def HasPrefix_def
  level_of_entry_def levelForAbbr_def lower_byte_def reset_unnamed_def set_entry_level_def

lemmas facade_eval =
  With_def clone_def append_slice_def normalizeArgs_def logw_def doubling_def emptyMem_def
  Trace_def Debug_def Info_def Warn_def Error_def Fatal_def log_methods_def

section \<open>Level abbreviations\<close>

text \<open>
  C3. \<open>levelForAbbr\<close> compares the lower-cased abbreviation. On \<open>wrn\<close> or \<open>warn\<close> it
  returns \<open>WarnLevel\<close>, whose severity is that of INFO, with a deprecation note; on
  \<open>pan\<close>, \<open>panic\<close>, \<open>ftl\<close> or \<open>fatal\<close> it returns \<open>PanicLevel\<close>, whose severity is that
  of ERROR, with a deprecation note; on an abbreviation outside its case labels it
  returns \<open>WarnLevel\<close> with a note that the abbreviation is not recognized.
\<close>

theorem levelForAbbr_deprecated_and_unrecognized:
  "(ToLower abbr \<in> {''wrn'', ''warn''} \<longrightarrow>
      levelForAbbr abbr = (WarnLevel, Some ''WRN is deprecated, use INF'')) \<and>
   (ToLower abbr \<in> {''pan'', ''panic''} \<longrightarrow>
      levelForAbbr abbr = (PanicLevel, Some ''PAN is deprecated, use ERR'')) \<and>
   (ToLower abbr \<in> {''ftl'', ''fatal''} \<longrightarrow>
      levelForAbbr abbr =
        (PanicLevel, Some ''FTL is deprecated, use ERR, mapped to PANIC'')) \<and>
   (ToLower abbr \<notin> set recognized_abbrs \<longrightarrow>
      levelForAbbr abbr =
        (WarnLevel, Some (abbr @ '' not recognized level, defaulting to warn''))) \<and>
   severity WarnLevel = severity InfoLevel \<and> severity PanicLevel = severity ErrorLevel"
  by (auto simp add: levelForAbbr_def recognized_abbrs_def)

theorem levelForAbbr_deprecated_and_unrecognized_witness:
  "levelForAbbr ''WRN'' = (WarnLevel, Some ''WRN is deprecated, use INF'') \<and>
   levelForAbbr ''warn'' = (WarnLevel, Some ''WRN is deprecated, use INF'') \<and>
   levelForAbbr ''Panic'' = (PanicLevel, Some ''PAN is deprecated, use ERR'') \<and>
   levelForAbbr ''FATAL'' =
     (PanicLevel, Some ''FTL is deprecated, use ERR, mapped to PANIC'') \<and>
   levelForAbbr ''bogus'' =
     (WarnLevel, Some ''bogus not recognized level, defaulting to warn'')"
  using levelForAbbr_deprecated_and_unrecognized [of "''WRN''"]
    levelForAbbr_deprecated_and_unrecognized [of "''warn''"]
    levelForAbbr_deprecated_and_unrecognized [of "''Panic''"]
    levelForAbbr_deprecated_and_unrecognized [of "''FATAL''"]
    levelForAbbr_deprecated_and_unrecognized [of "''bogus''"]
  by (simp add: lower_byte_def recognized_abbrs_def)

section \<open>Configure\<close>

text \<open>
  C9. Whenever the encoding of the configuration is one of the recognized names or
  empty, \<open>Configure\<close> returns no error, whatever the level string holds: the error
  that \<open>LevelsString\<close> returns for it is dropped.
\<close>

theorem Configure_drops_level_errors:
  "Encoding cfg \<in> set recognized_encodings \<Longrightarrow> fst (Configure pkg cfg r) = None"
  by (auto simp add: Configure_def chooseEncoder_def recognized_encodings_def Let_def)

theorem Configure_drops_level_errors_witness:
  "fst (LevelsString samplePkg ''*=bogus'' (SetDefaultLevel InfoLevel NewFactory)) =
     Some ''errors parsing config string: bogus not recognized level, defaulting to warn'' \<and>
   fst (Configure samplePkg
          \<lparr>DefaultLevel = InfoLevel, EncoderConfig = None, Encoding = ''json'',
           Development = False, AddCaller = None, Levels = ''*=bogus''\<rparr>
          NewFactory) = None"
proof -
  have "fst (Configure samplePkg
          \<lparr>DefaultLevel = InfoLevel, EncoderConfig = None, Encoding = ''json'',
           Development = False, AddCaller = None, Levels = ''*=bogus''\<rparr>
          NewFactory) = None"
    by (rule Configure_drops_level_errors) (simp add: recognized_encodings_def)
  moreover have "ls_errors ''*=bogus'' =
      [''bogus not recognized level, defaulting to warn'']"
    by (simp add: ls_errors_def parseConfigString_def parse_setting_def HasPrefix_def
          level_of_entry_def levelForAbbr_def lower_byte_def)
  ultimately show ?thesis by (simp add: LevelsString_unfold)
qed

text \<open>
  C10. When the encoding is none of the recognized names, \<open>Configure\<close> returns an
  error and leaves the factory as it was, except for the default level, which is
  already the one of the configuration: encoder, writer, caller flag, registry and
  every cell are unchanged.
\<close>

theorem Configure_bad_encoding:
  "Encoding cfg \<notin> set recognized_encodings \<Longrightarrow>
     Configure pkg cfg r =
       (Some (Encoding cfg @
          '' is not a valid encoding, must be one of: json, ltsv, term, or term-color''),
        r\<lparr>defaultLevel := DefaultLevel cfg\<rparr>)"
  by (auto simp add: Configure_def chooseEncoder_def recognized_encodings_def Let_def
        SetDefaultLevel_def)

theorem Configure_bad_encoding_witness:
  "Configure samplePkg
     \<lparr>DefaultLevel = DebugLevel, EncoderConfig = None, Encoding = ''xml'',
      Development = False, AddCaller = Some True, Levels = ''*=INF''\<rparr>
     NewFactory =
   (Some ''xml is not a valid encoding, must be one of: json, ltsv, term, or term-color'',
    NewFactory\<lparr>defaultLevel := DebugLevel\<rparr>) \<and>
   defaultLevel NewFactory = OffLevel"
proof -
  have "Encoding \<lparr>DefaultLevel = DebugLevel, EncoderConfig = None, Encoding = ''xml'',
      Development = False, AddCaller = Some True, Levels = ''*=INF''\<rparr>
      \<notin> set recognized_encodings"
    by (simp add: recognized_encodings_def)
  from Configure_bad_encoding [OF this, of samplePkg NewFactory]
  show ?thesis by (simp add: NewFactory_def SetDefaultLevel_def)
qed

section \<open>The restorer of SetOut\<close>

text \<open>
  C6. The function that \<open>SetOut\<close> returns, called after any sequence of administrative
  calls, sets the writer of the factory back to the one it had just before \<open>SetOut\<close>;
  after it every registered entry publishes an instance that writes to the sink that
  was active then, and a log call through any facade of a registered entry goes to an
  instance with that sink.
\<close>

theorem SetOut_restorer_round_trip:
  "let (restore, r1) = SetOut pkg w r;
       r3 = restore (run_ops pkg ops r1)
   in out r3 = out r \<and> getOut r3 = getOut r \<and>
      (\<forall>na \<in> set (loggers r3). \<forall>l. atomicLogger_ptr l = snd na \<longrightarrow>
         (\<exists>i. get r3 l = Some i \<and> core_out i = getOut r) \<and>
         (\<exists>e m'. logw grow zm msg args l r3 m = Some (e, m') \<and>
                  core_out (to_instance e) = getOut r))"
proof -
  define r2 where "r2 = run_ops pkg ops (setOut pkg w r)"
  define r3 where "r3 = setOut pkg (out r) r2"
  have o: "out r3 = out r" by (simp add: r3_def setOut_def)
  then have g: "getOut r3 = getOut r" by (simp add: getOut_def)
  have "\<exists>i. get r3 l = Some i \<and> core_out i = getOut r"
    if "na \<in> set (loggers r3)" "atomicLogger_ptr l = snd na" for na l
  proof -
    from that(1) have "(fst na, snd na) \<in> set (loggers (r2\<lparr>out := out r\<rparr>))"
      by (simp add: r3_def setOut_def)
    from refreshLoggers_settings [OF this, of pkg]
    show ?thesis using that(2) by (auto simp add: get_def r3_def setOut_def getOut_def)
  qed
  then have "\<forall>na \<in> set (loggers r3). \<forall>l. atomicLogger_ptr l = snd na \<longrightarrow>
         (\<exists>i. get r3 l = Some i \<and> core_out i = getOut r) \<and>
         (\<exists>e m'. logw grow zm msg args l r3 m = Some (e, m') \<and>
                  core_out (to_instance e) = getOut r)"
    using logw_returns by metis
  with o g show ?thesis
    by (simp add: SetOut_def Let_def r3_def r2_def)
qed

theorem SetOut_restorer_round_trip_witness:
  "let (restore, r1) =
         SetOut samplePkg (Some (Sink 1)) (snd (NewLogger samplePkg ''http'' NewFactory));
       r3 = restore (run_ops samplePkg [OpSetOut (Some (Sink 2)), OpSetAddCaller True] r1);
       l = \<lparr>atomicLogger_ptr = 0, context_s = NilSlice\<rparr>
   in out r3 = None \<and> getOut r3 = Stdout \<and> loggers r3 = [(''http'', 0)] \<and>
      map_option core_out (get r3 l) = Some Stdout \<and>
      map_option (\<lambda>em. core_out (to_instance (fst em)))
        (logw doubling Infow ''started'' [] l r3 emptyMem) = Some Stdout"
  using SetOut_restorer_round_trip [of samplePkg "Some (Sink 1)"
      "snd (NewLogger samplePkg ''http'' NewFactory)"
      "[OpSetOut (Some (Sink 2)), OpSetAddCaller True]" doubling Infow "''started''" "[]"
      emptyMem]
  by (simp add: factory_eval logw_def normalizeArgs_def)

section \<open>Facades of one name share one entry\<close>

text \<open>
  Two calls of \<open>NewLogger\<close> with the same name, with any administrative calls between
  them, return facades that point to the same cell; the second call changes nothing,
  and the registry holds one entry for the name. Hence both facades load the same
  instance, now and after any further administrative call. After a call that ends in
  a rebuild pass this is the instance built from the settings of that moment.
\<close>

lemma NewLogger_twice_shared_cell:
  assumes "wf_factory r"
  shows
  "let (l1, r1) = NewLogger pkg n r;
       r2 = run_ops pkg ops r1;
       (l2, r3) = NewLogger pkg n r2
   in atomicLogger_ptr l2 = atomicLogger_ptr l1 \<and> r3 = r2 \<and>
      filter (\<lambda>na. fst na = n) (loggers r3) = [(n, atomicLogger_ptr l1)] \<and>
      get r3 l2 = get r3 l1 \<and>
      (\<forall>opn. get (apply_op pkg opn r3) l2 = get (apply_op pkg opn r3) l1 \<and>
         (rebuilds pkg opn r3 \<longrightarrow>
            get (apply_op pkg opn r3) l1 =
              Some (newLogger pkg (apply_op pkg opn r3) n
                      (infos (apply_op pkg opn r3) (atomicLogger_ptr l1)))))"
proof -
  define a where "a = fst (getLoggerInfo pkg n r)"
  define r1 where "r1 = snd (getLoggerInfo pkg n r)"
  define r2 where "r2 = run_ops pkg ops r1"
  have reg1: "map_of (loggers r1) n = Some a"
    by (simp add: a_def r1_def getLoggerInfo_registered)
  then have reg2: "map_of (loggers r2) n = Some a"
    by (simp add: r2_def run_ops_keeps)
  then have again: "getLoggerInfo pkg n r2 = (a, r2)" by (rule getLoggerInfo_found)
  from assms have "wf_factory r1" by (simp add: r1_def wf_getLoggerInfo)
  then have wf2: "wf_factory r2" by (simp add: r2_def wf_run_ops)
  then have one: "filter (\<lambda>na. fst na = n) (loggers r2) = [(n, a)]"
    using reg2 by (simp add: wf_factory_def one_entry_per_name)
  have cur: "atomicLogger (infos (apply_op pkg opn r2) a) =
               Some (newLogger pkg (apply_op pkg opn r2) n (infos (apply_op pkg opn r2) a))"
    if "rebuilds pkg opn r2" for opn
    using wf2 that reg2 by (intro rebuilds_current) (simp_all add: apply_op_keeps)
  show ?thesis
    using one cur
    by (simp add: NewLogger_eq again get_def a_def [symmetric] r1_def [symmetric]
          r2_def [symmetric])
qed

lemma NewLogger_twice_shared_cell_example:
  "let (l1, r1) = NewLogger samplePkg ''http'' NewFactory;
       r2 = run_ops samplePkg [OpSetLevel ''sql'' DebugLevel, OpSetOut (Some (Sink 1))] r1;
       (l2, r3) = NewLogger samplePkg ''http'' r2;
       r4 = apply_op samplePkg (OpSetAddCaller True) r3
   in atomicLogger_ptr l1 = 0 \<and> atomicLogger_ptr l2 = 0 \<and>
      loggers r3 = [(''http'', 0), (''sql'', 1)] \<and>
      get r4 l1 =
        Some \<lparr>core_enc = LTSVEncoder (NewEncoderConfig samplePkg), core_out = Sink 1,
              core_lvl = DefaultAtomic, with_caller = True, logger_name = ''http''\<rparr> \<and>
      get r4 l2 = get r4 l1"
  using NewLogger_twice_shared_cell [OF wf_NewFactory, of samplePkg "''http''"
      "[OpSetLevel ''sql'' DebugLevel, OpSetOut (Some (Sink 1))]"]
  by (simp add: factory_eval)

text \<open>
  C5. The facades of one name share their cell, but a reconfiguration need not publish
  a new instance into it. Here \<open>NewLogger\<close> is called twice for \<open>http\<close> on the fresh
  factory, and then \<open>LevelsString\<close> with \<open>http=WRN\<close>. The call returns the deprecation
  note as its error and records the override \<open>WarnLevel\<close> in the entry. Both facades
  load the same instance afterwards, but it is the one from before the call, which
  follows the default level; the instance built from the entry as it is now would
  work at \<open>WarnLevel\<close>.
\<close>

theorem NewLogger_twice_stale_after_LevelsString_error:
  "let (l1, r1) = NewLogger samplePkg ''http'' NewFactory;
       (l2, r2) = NewLogger samplePkg ''http'' r1;
       (err, r3) = LevelsString samplePkg ''http=WRN'' r2
   in atomicLogger_ptr l1 = 0 \<and> atomicLogger_ptr l2 = 0 \<and>
      loggers r3 = [(''http'', 0)] \<and>
      err = Some ''errors parsing config string: WRN is deprecated, use INF'' \<and>
      levelEnabler (infos r3 0) = Some (Fixed WarnLevel) \<and>
      get r3 l2 = get r3 l1 \<and>
      get r3 l1 = get r2 l1 \<and>
      map_option core_lvl (get r3 l1) = Some DefaultAtomic \<and>
      effective_level r3 DefaultAtomic = OffLevel \<and>
      core_lvl (newLogger samplePkg r3 ''http'' (infos r3 0)) = Fixed WarnLevel \<and>
      map_option core_lvl (get (refreshLoggers samplePkg r3) l1) = Some (Fixed WarnLevel)"
  by (simp add: factory_eval levels_eval)

section \<open>Level strings\<close>

text \<open>
  C2. On a well-formed registry that holds an entry for \<open>sql\<close>, whatever its override,
  \<open>LevelsString\<close> of \<open>*=INF,http\<close> returns no error and sets the default level to
  \<open>InfoLevel\<close>; \<open>http\<close> has an entry with the override \<open>AllLevel\<close> whose published
  instance works at \<open>AllLevel\<close>; the entry of \<open>sql\<close> holds the factory's default
  level as its enabler, and so does its published instance, which therefore works at
  \<open>InfoLevel\<close>. With \<open>*=INF,-http\<close> the instance of \<open>http\<close> works at \<open>OffLevel\<close> and
  the default is \<open>InfoLevel\<close>.
\<close>

theorem LevelsString_default_and_bare_name:
  assumes "wf_factory r" and "map_of (loggers r) ''sql'' = Some a"
  shows
  "let (err, r') = LevelsString pkg ''*=INF,http'' r;
       (err2, r2) = LevelsString pkg ''*=INF,-http'' r
   in err = None \<and> defaultLevel r' = InfoLevel \<and>
      (\<exists>b i. map_of (loggers r') ''http'' = Some b \<and>
             levelEnabler (infos r' b) = Some (Fixed AllLevel) \<and>
             atomicLogger (infos r' b) = Some i \<and>
             effective_level r' (core_lvl i) = AllLevel) \<and>
      map_of (loggers r') ''sql'' = Some a \<and>
      levelEnabler (infos r' a) = Some DefaultAtomic \<and>
      (\<exists>i. atomicLogger (infos r' a) = Some i \<and> core_lvl i = DefaultAtomic \<and>
           effective_level r' (core_lvl i) = InfoLevel) \<and>
      err2 = None \<and> defaultLevel r2 = InfoLevel \<and>
      (\<exists>b i. map_of (loggers r2) ''http'' = Some b \<and>
             atomicLogger (infos r2 b) = Some i \<and>
             effective_level r2 (core_lvl i) = OffLevel)"
proof -
  have nh: "''sql'' \<noteq> ''http''" and hs: "''http'' \<noteq> ''*''" by simp_all
  note on = LevelsString_default_and_one [OF assms(1) ls_star_inf_http(1,2) hs, where pkg = pkg]
  note off = LevelsString_default_and_one [OF assms(1) ls_star_inf_http(3,4) hs, where pkg = pkg]
  from on(3) obtain b i where b:
    "map_of (loggers (snd (LevelsString pkg ''*=INF,http'' r))) ''http'' = Some b"
    "levelEnabler (infos (snd (LevelsString pkg ''*=INF,http'' r)) b) = Some (Fixed AllLevel)"
    "atomicLogger (infos (snd (LevelsString pkg ''*=INF,http'' r)) b) = Some i"
    "core_lvl i = Fixed AllLevel"
    by auto
  from on(4) [OF nh assms(2)] obtain j where j:
    "map_of (loggers (snd (LevelsString pkg ''*=INF,http'' r))) ''sql'' = Some a"
    "levelEnabler (infos (snd (LevelsString pkg ''*=INF,http'' r)) a) = Some DefaultAtomic"
    "atomicLogger (infos (snd (LevelsString pkg ''*=INF,http'' r)) a) = Some j"
    "core_lvl j = DefaultAtomic"
    by auto
  from off(3) obtain b' i' where b':
    "map_of (loggers (snd (LevelsString pkg ''*=INF,-http'' r))) ''http'' = Some b'"
    "atomicLogger (infos (snd (LevelsString pkg ''*=INF,-http'' r)) b') = Some i'"
    "core_lvl i' = Fixed OffLevel"
    by auto
  show ?thesis
    using on(1,2) off(1,2) b j b' by (simp add: split_beta)
qed

theorem LevelsString_default_and_bare_name_witness:
  "let r = SetLevel samplePkg ''sql'' DebugLevel NewFactory;
       (err, r') = LevelsString samplePkg ''*=INF,http'' r;
       (err2, r2) = LevelsString samplePkg ''*=INF,-http'' r
   in levelEnabler (infos r 0) = Some (Fixed DebugLevel) \<and>
      err = None \<and> defaultLevel r' = InfoLevel \<and>
      loggers r' = [(''sql'', 0), (''http'', 1)] \<and>
      levelEnabler (infos r' 1) = Some (Fixed AllLevel) \<and>
      map_option core_lvl (atomicLogger (infos r' 1)) = Some (Fixed AllLevel) \<and>
      levelEnabler (infos r' 0) = Some DefaultAtomic \<and>
      map_option core_lvl (atomicLogger (infos r' 0)) = Some DefaultAtomic \<and>
      effective_level r' DefaultAtomic = InfoLevel \<and>
      err2 = None \<and> defaultLevel r2 = InfoLevel \<and>
      map_option core_lvl (atomicLogger (infos r2 1)) = Some (Fixed OffLevel)"
proof -
  have w: "wf_factory (SetLevel samplePkg ''sql'' DebugLevel NewFactory)"
    by (simp add: SetLevel_def wf_setLevel wf_NewFactory)
  have m: "map_of (loggers (SetLevel samplePkg ''sql'' DebugLevel NewFactory)) ''sql'' = Some 0"
    by (simp add: factory_eval)
  from LevelsString_default_and_bare_name [OF w m, of samplePkg]
  show ?thesis by (simp add: factory_eval levels_eval)
qed

text \<open>
  C1. \<open>LevelsString\<close> evaluated on a factory where \<open>http\<close> is registered with the
  override \<open>OffLevel\<close>, for the string \<open>http,sql=bogus\<close>. The error for \<open>bogus\<close> is
  returned and both settings are written into the entries, but no instance is
  published anew: the handle of \<open>http\<close> still holds the instance built for \<open>OffLevel\<close>,
  where a rebuild pass would publish one for \<open>AllLevel\<close>.
\<close>

theorem LevelsString_error_skips_rebuild:
  "let r0 = SetLevel samplePkg ''http'' OffLevel NewFactory;
       (err, r') = LevelsString samplePkg ''http,sql=bogus'' r0
   in err = Some ''errors parsing config string: bogus not recognized level, defaulting to warn'' \<and>
      loggers r' = [(''http'', 0), (''sql'', 1)] \<and>
      levelEnabler (infos r' 0) = Some (Fixed AllLevel) \<and>
      levelEnabler (infos r' 1) = Some (Fixed WarnLevel) \<and>
      atomicLogger (infos r' 0) = atomicLogger (infos r0 0) \<and>
      map_option core_lvl (atomicLogger (infos r' 0)) = Some (Fixed OffLevel) \<and>
      map_option core_lvl (atomicLogger (infos r' 1)) = Some DefaultAtomic \<and>
      map_option core_lvl (atomicLogger (infos (refreshLoggers samplePkg r') 0)) =
        Some (Fixed AllLevel)"
  by (simp add: factory_eval levels_eval)

section \<open>SetLevel on a name without entry\<close>

text \<open>
  C4, as stated, fails: \<open>SetLevel\<close> on the fresh factory registers the name: the registry has no entry for
  \<open>db\<close> before the call and one after it.
\<close>

theorem SetLevel_absent_name_counterexample:
  "map_of (loggers NewFactory) ''db'' = None \<and>
   map_of (loggers (SetLevel samplePkg ''db'' DebugLevel NewFactory)) ''db'' = Some 0"
  by (simp add: factory_eval)

text \<open>
  C4, as the code has it. On a well-formed registry without an entry for the name,
  \<open>SetLevel\<close> creates the entry in a fresh cell, records the level as its override and
  runs a rebuild pass, after which every entry publishes the instance built from the
  state of the moment. A later \<open>NewLogger\<close> for the name changes nothing and returns a
  facade of that cell, whose instance has the level as its enabler.
\<close>

theorem SetLevel_absent_name_creates_entry:
  assumes "wf_factory r" and "map_of (loggers r) n = None"
  shows
  "let r' = SetLevel pkg n l r;
       (lg, r2) = NewLogger pkg n r'
   in loggers r' = loggers r @ [(n, next_info r)] \<and>
      levelEnabler (infos r' (next_info r)) = Some (Fixed l) \<and>
      list_all (\<lambda>ka. atomicLogger (infos r' (snd ka)) =
                        Some (newLogger pkg r' (fst ka) (infos r' (snd ka)))) (loggers r') \<and>
      r2 = r' \<and> atomicLogger_ptr lg = next_info r \<and>
      map_option core_lvl (get r2 lg) = Some (Fixed l)"
proof -
  define x where "x = setLevel pkg n l r"
  have lg: "loggers x = loggers r @ [(n, next_info r)]"
    using assms(2) by (simp add: x_def getLoggerInfo_new)
  have en: "levelEnabler (infos x (next_info r)) = Some (Fixed l)"
    using assms(2) by (simp add: x_def getLoggerInfo_new)
  from assms(1) have wfx: "wf_factory x" by (simp add: x_def wf_setLevel)
  have reg: "map_of (loggers (refreshLoggers pkg x)) n = Some (next_info r)"
    using assms(2) by (simp add: lg map_add_def)
  have cur: "atomicLogger (infos (refreshLoggers pkg x) a) =
               Some (newLogger pkg (refreshLoggers pkg x) k (infos (refreshLoggers pkg x) a))"
    if "(k, a) \<in> set (loggers x)" for k a
  proof -
    from wfx have "distinct (map fst (loggers x))" by (simp add: wf_factory_def)
    with that have "map_of (loggers x) k = Some a" by simp
    from refreshLoggers_current [OF wfx this] show ?thesis .
  qed
  then have all: "list_all (\<lambda>ka. atomicLogger (infos (refreshLoggers pkg x) (snd ka)) =
      Some (newLogger pkg (refreshLoggers pkg x) (fst ka) (infos (refreshLoggers pkg x) (snd ka))))
      (loggers x)"
    by (auto simp add: list_all_iff)
  have "(n, next_info r) \<in> set (loggers x)" by (simp add: lg)
  from cur [OF this] en
  have "map_option core_lvl (atomicLogger (infos (refreshLoggers pkg x) (next_info r))) =
          Some (Fixed l)"
    by (simp add: newLogger_def)
  with lg en all reg show ?thesis
    by (simp add: SetLevel_def x_def [symmetric] NewLogger_eq getLoggerInfo_found get_def)
qed

theorem SetLevel_absent_name_creates_entry_witness:
  "let r' = SetLevel samplePkg ''db'' DebugLevel NewFactory;
       (lg, r2) = NewLogger samplePkg ''db'' r'
   in map_of (loggers NewFactory) ''db'' = None \<and>
      loggers r' = [(''db'', 0)] \<and>
      levelEnabler (infos r' 0) = Some (Fixed DebugLevel) \<and>
      loggers r2 = [(''db'', 0)] \<and> atomicLogger_ptr lg = 0 \<and>
      map_option core_lvl (get r2 lg) = Some (Fixed DebugLevel)"
proof -
  have m: "map_of (loggers NewFactory) ''db'' = None" by (simp add: factory_eval)
  from SetLevel_absent_name_creates_entry [OF wf_NewFactory m, of samplePkg DebugLevel]
  show ?thesis by (simp add: factory_eval)
qed

section \<open>Contexts of facades\<close>

text \<open>
  C7. For a facade whose context is a well-formed slice, \<open>With\<close> returns a facade
  of the same handle whose context holds the parent's elements followed by the
  normalized arguments, and the parent's context holds what it held before. A log
  call on the parent afterwards carries the parent's elements and its own arguments
  only, and a log call on the child, which may write into the child's backing array,
  leaves the parent's context as it was.
\<close>

theorem With_leaves_parent_context:
  assumes "wf_slice m (context_s l)"
  shows
  "let (l2, m') = With grow args l m
   in elems m' (context_s l2) = elems m (context_s l) @ normalizeArgs args \<and>
      atomicLogger_ptr l2 = atomicLogger_ptr l \<and>
      elems m' (context_s l) = elems m (context_s l) \<and>
      (\<forall>zm msg args2 r i. get r l = Some i \<longrightarrow>
         (\<exists>e m2. logw grow zm msg args2 l r m' = Some (e, m2) \<and>
            key_values e = elems m (context_s l) @ normalizeArgs args2 \<and>
            elems m2 (context_s l) = elems m (context_s l))) \<and>
      (\<forall>zm msg args2 r i. get r l2 = Some i \<longrightarrow>
         (\<exists>e m2. logw grow zm msg args2 l2 r m' = Some (e, m2) \<and>
            key_values e = elems m (context_s l) @ normalizeArgs args @ normalizeArgs args2 \<and>
            elems m2 (context_s l) = elems m (context_s l)))"
proof -
  define l2 where "l2 = fst (With grow args l m)"
  define m' where "m' = snd (With grow args l m)"
  note w = With_props [OF assms, of grow args, folded l2_def m'_def]
  have parent: "\<exists>e m2. logw grow zm msg args2 l r m' = Some (e, m2) \<and>
            key_values e = elems m (context_s l) @ normalizeArgs args2 \<and>
            elems m2 (context_s l) = elems m (context_s l)"
    if "get r l = Some i" for zm msg args2 r i
    using logw_fields [OF w(4) that, of grow zm msg args2] w(3,4) by auto
  have child: "\<exists>e m2. logw grow zm msg args2 l2 r m' = Some (e, m2) \<and>
            key_values e = elems m (context_s l) @ normalizeArgs args @ normalizeArgs args2 \<and>
            elems m2 (context_s l) = elems m (context_s l)"
    if "get r l2 = Some i" for zm msg args2 r i
    using logw_fields [OF w(2) that, of grow zm msg args2] w(1,3,4,5) by auto
  show ?thesis
    using w(1,3,6) parent child
    by (simp add: split_beta l2_def [symmetric] m'_def [symmetric]) blast
qed

theorem With_leaves_parent_context_witness:
  "let r = snd (NewLogger samplePkg ''http'' NewFactory);
       root = \<lparr>atomicLogger_ptr = 0, context_s = NilSlice\<rparr>;
       (parent, m) = With doubling [ZapField ''svc'' (SomeVal 1)] root emptyMem;
       (child, m') = With doubling [Plain (SomeVal 7)] parent m
   in wf_slice m (context_s parent) \<and>
      elems m (context_s parent) = [ZapField ''svc'' (SomeVal 1)] \<and>
      elems m' (context_s child) = [ZapField ''svc'' (SomeVal 1), ZapField [] (SomeVal 7)] \<and>
      elems m' (context_s parent) = [ZapField ''svc'' (SomeVal 1)] \<and>
      atomicLogger_ptr child = 0 \<and>
      map_option (\<lambda>em. (key_values (fst em), elems (snd em) (context_s parent)))
        (logw doubling Infow ''served'' [ZapField ''n'' (SomeVal 2)] parent r m') =
        Some ([ZapField ''svc'' (SomeVal 1), ZapField ''n'' (SomeVal 2)],
              [ZapField ''svc'' (SomeVal 1)]) \<and>
      map_option (\<lambda>em. (key_values (fst em), elems (snd em) (context_s parent)))
        (logw doubling Infow ''served'' [ZapField ''n'' (SomeVal 2)] child r m') =
        Some ([ZapField ''svc'' (SomeVal 1), ZapField [] (SomeVal 7),
               ZapField ''n'' (SomeVal 2)],
              [ZapField ''svc'' (SomeVal 1)])"
proof -
  have w: "wf_slice (snd (With doubling [ZapField ''svc'' (SomeVal 1)]
                \<lparr>atomicLogger_ptr = 0, context_s = NilSlice\<rparr> emptyMem))
             (context_s (fst (With doubling [ZapField ''svc'' (SomeVal 1)]
                \<lparr>atomicLogger_ptr = 0, context_s = NilSlice\<rparr> emptyMem)))"
    by (simp add: facade_eval Let_def)
  from With_leaves_parent_context [OF w, where grow = doubling and args = "[Plain (SomeVal 7)]"]
  show ?thesis by (simp add: facade_eval factory_eval)
qed

text \<open>
  C8. Each of the six logging methods, called on a facade with a well-formed context
  and a published instance with one argument that is not a \<open>zapcore.Field\<close>, hands
  to the instance the elements of the context followed by the argument wrapped as a
  field with the empty key, and leaves the context of the facade as it was.
\<close>

theorem log_single_bare_argument:
  assumes "wf_slice m (context_s l)" and "get r l = Some i"
  shows
  "normalizeArgs [Plain v] = [ZapField [] v] \<and>
   list_all (\<lambda>method.
      \<exists>e m'. method grow msg [Plain v] l r m = Some (e, m') \<and> to_instance e = i \<and>
        message e = msg \<and>
        key_values e = elems m (context_s l) @ [ZapField [] v] \<and>
        elems m' (context_s l) = elems m (context_s l)) log_methods"
proof -
  have n: "normalizeArgs [Plain v] = [ZapField [] v]" by (simp add: normalizeArgs_def)
  have "\<exists>e m'. logw grow zm msg [Plain v] l r m = Some (e, m') \<and> to_instance e = i \<and>
        message e = msg \<and>
        key_values e = elems m (context_s l) @ [ZapField [] v] \<and>
        elems m' (context_s l) = elems m (context_s l)" for zm
    using logw_fields [OF assms, of grow zm msg "[Plain v]"] assms(1) n by auto
  with n show ?thesis
    by (simp add: log_methods_def Trace_def Debug_def Info_def Warn_def Error_def Fatal_def)
qed

theorem log_single_bare_argument_witness:
  "let r = snd (NewLogger samplePkg ''http'' NewFactory);
       root = \<lparr>atomicLogger_ptr = 0, context_s = NilSlice\<rparr>;
       (l, m) = With doubling [ZapField ''svc'' (SomeVal 1)] root emptyMem
   in wf_slice m (context_s l) \<and>
      map_option logger_name (get r l) = Some ''http'' \<and>
      map_option (\<lambda>em. (key_values (fst em), elems (snd em) (context_s l)))
        (Debug doubling ''failed'' [Plain (SomeVal 9)] l r m) =
        Some ([ZapField ''svc'' (SomeVal 1), ZapField [] (SomeVal 9)],
              [ZapField ''svc'' (SomeVal 1)]) \<and>
      map_option (\<lambda>em. key_values (fst em))
        (Error doubling ''failed'' [Plain (SomeVal 9)] root r m) =
        Some [ZapField [] (SomeVal 9)]"
proof -
  define r where "r = snd (NewLogger samplePkg ''http'' NewFactory)"
  define l where "l = fst (With doubling [ZapField ''svc'' (SomeVal 1)]
                \<lparr>atomicLogger_ptr = 0, context_s = NilSlice\<rparr> emptyMem)"
  define m where "m = snd (With doubling [ZapField ''svc'' (SomeVal 1)]
                \<lparr>atomicLogger_ptr = 0, context_s = NilSlice\<rparr> emptyMem)"
  have w: "wf_slice m (context_s l)" by (simp add: l_def m_def facade_eval Let_def)
  have g: "get r l = Some (newLogger samplePkg NewFactory ''http''
                             \<lparr>levelEnabler = None, atomicLogger = None\<rparr>)"
    by (simp add: r_def l_def facade_eval factory_eval)
  have w0: "wf_slice m (context_s \<lparr>atomicLogger_ptr = 0, context_s = NilSlice\<rparr>)" by simp
  have g0: "get r \<lparr>atomicLogger_ptr = 0, context_s = NilSlice\<rparr> =
      Some (newLogger samplePkg NewFactory ''http''
                             \<lparr>levelEnabler = None, atomicLogger = None\<rparr>)"
    by (simp add: r_def factory_eval)
  from log_single_bare_argument [OF w g, where grow = doubling and msg = "''failed''" and v = "SomeVal 9"]
    log_single_bare_argument [OF w0 g0, where grow = doubling and msg = "''failed''" and v = "SomeVal 9"]
  show ?thesis
    by (simp add: r_def l_def m_def facade_eval factory_eval)
qed


end
